theory Spec2Isabelle
  imports Complex_Main "HOL-Library.Sublist"
begin

section \<open>Python strings\<close>

text \<open>
  A Python \<^verbatim>\<open>str\<close> is modelled as a \<^typ>\<open>string\<close> holding its UTF-8 bytes. The
  character classes are the ASCII ones: \<^verbatim>\<open>str.strip\<close>, \<^verbatim>\<open>\s\<close> and \<^verbatim>\<open>str.isspace\<close>
  agree on the ten ASCII whitespace characters below, \<^verbatim>\<open>str.lower\<close> maps \<^verbatim>\<open>A-Z\<close> to
  \<^verbatim>\<open>a-z\<close>, and bytes above 127 are left alone (the case mapping and the whitespace
  of non-ASCII code points are not part of the model).
\<close>

definition is_space :: "char \<Rightarrow> bool" where
  "is_space c = (of_char c \<in> {9, 10, 11, 12, 13, 28, 29, 30, 31, 32 :: nat})"

definition lower_char :: "char \<Rightarrow> char" where
  "lower_char c =
     (case map_of (zip ''ABCDEFGHIJKLMNOPQRSTUVWXYZ'' ''abcdefghijklmnopqrstuvwxyz'') c of
        Some d \<Rightarrow> d
      | None \<Rightarrow> c)"

definition str_lower :: "string \<Rightarrow> string" where
  "str_lower s = map lower_char s"

definition str_strip :: "string \<Rightarrow> string" where
  "str_strip s = rev (dropWhile is_space (rev (dropWhile is_space s)))"

text \<open>\<^verbatim>\<open>re.sub(r"\s+", " ", s)\<close>: every maximal run of whitespace becomes one space.\<close>

function collapse_ws :: "string \<Rightarrow> string" where
  "collapse_ws [] = []"
| "collapse_ws (c # cs) =
     (if is_space c then CHR '' '' # collapse_ws (dropWhile is_space cs)
      else c # collapse_ws cs)"
  by pat_completeness auto
termination
  by (relation "measure length") (auto simp: le_imp_less_Suc length_dropWhile_le)

text \<open>
  \<^verbatim>\<open>s.replace(old, new)\<close>: the occurrences of \<^verbatim>\<open>old\<close> are found from the left and do not
  overlap; the replaced text is not scanned again. (With an empty \<^verbatim>\<open>old\<close> Python puts
  \<^verbatim>\<open>new\<close> before every character and at the end.)
\<close>

function str_replace :: "string \<Rightarrow> string \<Rightarrow> string \<Rightarrow> string" where
  "str_replace old new s =
     (if old = [] then new @ concat (map (\<lambda>c. c # new) s)
      else if s = [] then []
      else if prefix old s then new @ str_replace old new (drop (length old) s)
      else hd s # str_replace old new (tl s))"
  by pat_completeness auto
termination
  by (relation "measure (\<lambda>(old, new, s). length s)") auto

declare str_replace.simps [simp del]

text \<open>\<^verbatim>\<open>str(n)\<close> of an integer: decimal digits, a minus sign when negative.\<close>

definition digit_char :: "nat \<Rightarrow> char" where
  "digit_char d = ''0123456789'' ! d"

fun str_nat :: "nat \<Rightarrow> string" where
  "str_nat n = (if n < 10 then [digit_char n] else str_nat (n div 10) @ [digit_char (n mod 10)])"

declare str_nat.simps [simp del]

definition str_int :: "int \<Rightarrow> string" where
  "str_int i = (if i < 0 then CHR ''-'' # str_nat (nat (- i)) else str_nat (nat i))"

definition is_digit :: "char \<Rightarrow> bool" where
  "is_digit c = (c \<in> set ''0123456789'')"

section \<open>Cells of a dataframe\<close>

text \<open>
  A geometry is modelled by the set of points it covers (points are abstract), so that
  the polygonal union of shapes is the union of their point sets. The three missing
  values of pandas print differently under \<^verbatim>\<open>str\<close> and are kept apart.
\<close>

type_synonym geometry = "nat set"

datatype null_kind = PyNone | NaN | NA

datatype cell = Null null_kind | IntV int | NumV rat | StrV string | GeomV geometry

text \<open>
  What \<^verbatim>\<open>str\<close> prints for a float and for a shape (its WKT text), and which number
  \<^verbatim>\<open>pd.to_numeric\<close> reads from a string (\<open>None\<close> when it reads none), are outside the
  model: they are parameters of the environment, with nothing assumed about them. The
  environment also says for which key column and rows the library's \<^verbatim>\<open>dissolve\<close>
  raises, and what \<^verbatim>\<open>simplify\<close> returns for a shape (\<open>None\<close> when it raises).
\<close>

record env =
  float_str :: "rat \<Rightarrow> string"
  geom_str :: "geometry \<Rightarrow> string"
  str_to_number :: "string \<Rightarrow> rat option"
  dissolve_raises :: "string \<Rightarrow> cell list list \<Rightarrow> bool"
  simplify :: "geometry \<Rightarrow> geometry option"

definition isna :: "cell \<Rightarrow> bool" where
  "isna c = (case c of Null _ \<Rightarrow> True | _ \<Rightarrow> False)"

fun py_str :: "env \<Rightarrow> cell \<Rightarrow> string" where
  "py_str E (Null PyNone) = ''None''"
| "py_str E (Null NaN) = ''nan''"
| "py_str E (Null NA) = ''<NA>''"
| "py_str E (IntV i) = str_int i"
| "py_str E (NumV r) = float_str E r"
| "py_str E (StrV s) = s"
| "py_str E (GeomV g) = geom_str E g"

section \<open>Identifier normalizers\<close>

text \<open>
  \<^verbatim>\<open>normalize_names\<close> of \<^verbatim>\<open>src/utils.py\<close>, on one element of the series and on the series:
  \<^verbatim>\<open>fillna("")\<close>, \<^verbatim>\<open>astype(str)\<close>, \<^verbatim>\<open>str.strip()\<close>, \<^verbatim>\<open>str.replace(r"\s+", " ")\<close>,
  \<^verbatim>\<open>str.lower()\<close>.
\<close>

definition fillna_empty :: "cell \<Rightarrow> cell" where
  "fillna_empty c = (if isna c then StrV [] else c)"

definition normalize_name :: "env \<Rightarrow> cell \<Rightarrow> cell" where
  "normalize_name E c = StrV (str_lower (collapse_ws (str_strip (py_str E (fillna_empty c)))))"

definition normalize_names :: "env \<Rightarrow> cell list \<Rightarrow> cell list" where
  "normalize_names E series = map (normalize_name E) series"

text \<open>
  \<^verbatim>\<open>normalize_one\<close> of \<^verbatim>\<open>src/utils_pro.py\<close>: a value that is not a string gives the empty
  string; a string is stripped, lowercased, has each pair of spaces replaced by one
  space (one pass), and its em and en dashes (UTF-8 \<^verbatim>\<open>E2 80 94\<close>, \<^verbatim>\<open>E2 80 93\<close>) replaced
  by a hyphen.
\<close>

definition em_dash :: string where
  "em_dash = [CHR 0xE2, CHR 0x80, CHR 0x94]"

definition en_dash :: string where
  "en_dash = [CHR 0xE2, CHR 0x80, CHR 0x93]"

definition normalize_one :: "cell \<Rightarrow> string" where
  "normalize_one x =
     (case x of
        StrV s \<Rightarrow>
          str_replace en_dash ''-''
            (str_replace em_dash ''-''
              (str_replace ''  '' '' '' (str_lower (str_strip s))))
      | _ \<Rightarrow> [])"

section \<open>Column resolver\<close>

text \<open>\<^verbatim>\<open>sub in s\<close> on strings: \<^verbatim>\<open>sub\<close> occurs in \<^verbatim>\<open>s\<close> as a contiguous run.\<close>

fun py_in :: "string \<Rightarrow> string \<Rightarrow> bool" where
  "py_in sub [] = (sub = [])"
| "py_in sub (c # cs) = (prefix sub (c # cs) \<or> py_in sub cs)"

text \<open>
  \<^verbatim>\<open>find_col_by_keywords\<close> of \<^verbatim>\<open>src/utils.py\<close>. The inner loop runs over the keywords
  for one lowered label, the outer loop over the columns; the first hit returns the
  column as it was given. \<^verbatim>\<open>cols\<close> may be \<^verbatim>\<open>None\<close>.
\<close>

fun keyword_hit :: "string list \<Rightarrow> string \<Rightarrow> bool" where
  "keyword_hit [] low = False"
| "keyword_hit (kw # kws) low = (if py_in (str_lower kw) low then True else keyword_hit kws low)"

fun find_col_loop :: "string list \<Rightarrow> string list \<Rightarrow> string option" where
  "find_col_loop [] keywords = None"
| "find_col_loop (c # cs) keywords =
     (let low = str_lower (str_strip c)
      in if keyword_hit keywords low then Some c else find_col_loop cs keywords)"

definition find_col_by_keywords :: "string list option \<Rightarrow> string list \<Rightarrow> string option" where
  "find_col_by_keywords cols keywords =
     (case cols of None \<Rightarrow> None | Some cs \<Rightarrow> find_col_loop cs keywords)"

text \<open>
  The resolver's contract in the specification's words, for stating the claim: a label
  contains a keyword when the lowered keyword is a contiguous part of the trimmed,
  lowered label.
\<close>

definition label_contains_keyword :: "string list \<Rightarrow> string \<Rightarrow> bool" where
  "label_contains_keyword kws c =
     (\<exists>kw \<in> set kws. sublist (str_lower kw) (str_lower (str_strip c)))"

section \<open>Turnout loader: the percentage field\<close>



definition digit_val :: "char \<Rightarrow> nat" where
  "digit_val c = of_char c - 48"

definition nat_of_digits :: "string \<Rightarrow> nat" where
  "nat_of_digits ds = foldl (\<lambda>a c. 10 * a + digit_val c) 0 ds"



section \<open>Composite key\<close>

text \<open>
  \<^verbatim>\<open>re.sub(r"\.0+$", "", s)\<close>: a dot and a run of zeros that ends the string (or stands
  before its final newline, where \<^verbatim>\<open>$\<close> also matches) is removed.
\<close>

fun strip_dot_zeros :: "string \<Rightarrow> string" where
  "strip_dot_zeros [] = []"
| "strip_dot_zeros (c # cs) =
     (let zs = takeWhile (\<lambda>x. x = CHR ''0'') cs; rest = dropWhile (\<lambda>x. x = CHR ''0'') cs
      in if c = CHR ''.'' \<and> zs \<noteq> [] \<and> (rest = [] \<or> rest = [CHR 0x0A]) then rest
         else c # strip_dot_zeros cs)"

text \<open>
  \<^verbatim>\<open>int(x)\<close>, \<open>None\<close> where Python raises. For a string: surrounding whitespace is
  dropped, a sign may come first, and the digits may be grouped by single underscores.
  A float is cut towards zero.
\<close>

fun grouped_digits :: "string \<Rightarrow> string option" where
  "grouped_digits [] = None"
| "grouped_digits [c] = (if is_digit c then Some [c] else None)"
| "grouped_digits (c # d # cs) =
     (if is_digit c
      then (if d = CHR ''_'' then map_option (Cons c) (grouped_digits cs)
            else map_option (Cons c) (grouped_digits (d # cs)))
      else None)"

definition py_int_of_str :: "string \<Rightarrow> int option" where
  "py_int_of_str s =
     (case str_strip s of
        [] \<Rightarrow> None
      | c # r \<Rightarrow>
          if c = CHR ''-'' then map_option (\<lambda>ds. - int (nat_of_digits ds)) (grouped_digits r)
          else if c = CHR ''+'' then map_option (\<lambda>ds. int (nat_of_digits ds)) (grouped_digits r)
          else map_option (\<lambda>ds. int (nat_of_digits ds)) (grouped_digits (c # r)))"

fun py_int :: "cell \<Rightarrow> int option" where
  "py_int (IntV i) = Some i"
| "py_int (NumV r) = Some (if 0 \<le> r then \<lfloor>r\<rfloor> else \<lceil>r\<rceil>)"
| "py_int (StrV s) = py_int_of_str s"
| "py_int (Null k) = None"
| "py_int (GeomV g) = None"

text \<open>
  \<^verbatim>\<open>_safe_str\<close>, local to \<^verbatim>\<open>load_gpkg\<close>, and \<^verbatim>\<open>_safe_str_intlike\<close>: the year component
  of the key on the geometry side and on the turnout side.
\<close>

definition safe_str :: "env \<Rightarrow> cell \<Rightarrow> string" where
  "safe_str E x =
     (if isna x then []
      else (case py_int x of
              Some i \<Rightarrow> str_int i
            | None \<Rightarrow> str_strip (strip_dot_zeros (py_str E x))))"

definition safe_str_intlike :: "env \<Rightarrow> cell \<Rightarrow> string" where
  "safe_str_intlike E x =
     (if isna x then []
      else (case x of
              IntV i \<Rightarrow> str_int i
            | _ \<Rightarrow> strip_dot_zeros (str_strip (py_str E x))))"

text \<open>
  \<^verbatim>\<open>r.get(name, '')\<close> on a row: the cell, or the empty string when the row has no such
  column. The key of a row is built from its \<^verbatim>\<open>year\<close> and \<^verbatim>\<open>riding_num\<close> entries:
  \<^verbatim>\<open>f"{_safe_str(r.get('year', ''))}__{str(r.get('riding_num', '')).strip()}"\<close> in
  \<^verbatim>\<open>load_gpkg\<close>, the same with \<^verbatim>\<open>_safe_str_intlike\<close> in \<^verbatim>\<open>load_federal_csv\<close>.
\<close>

definition get_or_empty :: "cell option \<Rightarrow> cell" where
  "get_or_empty v = (case v of None \<Rightarrow> StrV [] | Some c \<Rightarrow> c)"

definition gpkg_geo_key :: "env \<Rightarrow> cell option \<Rightarrow> cell option \<Rightarrow> string" where
  "gpkg_geo_key E year riding_num =
     safe_str E (get_or_empty year) @ ''__'' @ str_strip (py_str E (get_or_empty riding_num))"

definition csv_geo_key :: "env \<Rightarrow> cell option \<Rightarrow> cell option \<Rightarrow> string" where
  "csv_geo_key E year riding_num =
     safe_str_intlike E (get_or_empty year) @ ''__'' @ str_strip (py_str E (get_or_empty riding_num))"

text \<open>
  What the loaders put into \<^verbatim>\<open>riding_num\<close> before the key is built. \<^verbatim>\<open>load_gpkg\<close>, when
  it rebuilds the column from an alias column: \<^verbatim>\<open>astype(str)\<close>, \<^verbatim>\<open>strip\<close>, the trailing
  \<^verbatim>\<open>.0\<close> removed (with no alias column every entry is \<^verbatim>\<open>None\<close>). \<^verbatim>\<open>load_federal_csv\<close>: the
  same cleaning, then \<^verbatim>\<open>replace({"nan": None, "None": None, "none": None})\<close>.
\<close>

definition gpkg_riding_num :: "env \<Rightarrow> cell \<Rightarrow> cell" where
  "gpkg_riding_num E c = StrV (strip_dot_zeros (str_strip (py_str E c)))"

definition csv_riding_num :: "env \<Rightarrow> cell \<Rightarrow> cell" where
  "csv_riding_num E c =
     (let s = strip_dot_zeros (str_strip (py_str E c))
      in if s = ''nan'' \<or> s = ''None'' \<or> s = ''none'' then Null PyNone else StrV s)"

section \<open>Dataframes\<close>

text \<open>
  A dataframe is its column labels and its rows; a row holds one cell per column, in
  column order. A GeoDataFrame is a dataframe whose \<^verbatim>\<open>geometry\<close> column holds shapes.
  \<open>cell_of\<close> reads the cell of a row under a label.
\<close>

record frame =
  columns :: "string list"
  rows :: "cell list list"

datatype error =
  MissingYearColumn | NoValidJoinKey | KeyError string | AttributeError | TypeError | MergeError

definition cell_of :: "string list \<Rightarrow> cell list \<Rightarrow> string \<Rightarrow> cell" where
  "cell_of cols r c = (case map_of (zip cols r) c of Some v \<Rightarrow> v | None \<Rightarrow> Null NaN)"

definition column :: "frame \<Rightarrow> string \<Rightarrow> cell list" where
  "column f c = map (\<lambda>r. cell_of (columns f) r c) (rows f)"

definition set_cell :: "string list \<Rightarrow> cell list \<Rightarrow> string \<Rightarrow> cell \<Rightarrow> cell list" where
  "set_cell cols r c v = map (\<lambda>(n, x). if n = c then v else x) (zip cols r)"

text \<open>\<^verbatim>\<open>f[c] = vs\<close>: the column is overwritten, or added last when the label is new.\<close>

definition set_column :: "frame \<Rightarrow> string \<Rightarrow> cell list \<Rightarrow> frame" where
  "set_column f c vs =
     (if c \<in> set (columns f)
      then f\<lparr>rows := map (\<lambda>(r, v). set_cell (columns f) r c v) (zip (rows f) vs)\<rparr>
      else f\<lparr>columns := columns f @ [c], rows := map (\<lambda>(r, v). r @ [v]) (zip (rows f) vs)\<rparr>)"

definition rename_column :: "string \<Rightarrow> string \<Rightarrow> frame \<Rightarrow> frame" where
  "rename_column old new f = f\<lparr>columns := map (\<lambda>c. if c = old then new else c) (columns f)\<rparr>"

definition filter_rows :: "(cell list \<Rightarrow> bool) \<Rightarrow> frame \<Rightarrow> frame" where
  "filter_rows p f = f\<lparr>rows := filter p (rows f)\<rparr>"

definition select_cols :: "frame \<Rightarrow> string list \<Rightarrow> frame" where
  "select_cols f cs = \<lparr>columns = cs, rows = map (\<lambda>r. map (cell_of (columns f) r) cs) (rows f)\<rparr>"

text \<open>\<^verbatim>\<open>f[f["year"] == int(year)]\<close>: an integer, or a float of the same value, compares equal.\<close>

definition eq_int :: "cell \<Rightarrow> int \<Rightarrow> bool" where
  "eq_int c y = (case c of IntV i \<Rightarrow> i = y | NumV r \<Rightarrow> r = of_int y | _ \<Rightarrow> False)"

definition rows_equal :: "frame \<Rightarrow> string \<Rightarrow> int \<Rightarrow> frame" where
  "rows_equal f c y = filter_rows (\<lambda>r. eq_int (cell_of (columns f) r c) y) f"

definition year_rows :: "frame \<Rightarrow> int \<Rightarrow> frame" where
  "year_rows f year = rows_equal f ''year'' year"

subsection \<open>Keys, groups and order\<close>

text \<open>
  pandas matches keys by value, with every missing value equal to every other one (in
  \<^verbatim>\<open>merge\<close> and in \<^verbatim>\<open>duplicated\<close>) and an integer equal to the float of the same value.
  \<open>key_canon\<close> gives each key its representative, so that two keys match when their
  representatives are equal.
\<close>

definition key_canon :: "cell \<Rightarrow> cell" where
  "key_canon c = (case c of Null k \<Rightarrow> Null NaN | IntV i \<Rightarrow> NumV (of_int i) | _ \<Rightarrow> c)"

text \<open>\<^verbatim>\<open>series.duplicated(keep=False).any()\<close>\<close>

definition any_duplicated :: "cell list \<Rightarrow> bool" where
  "any_duplicated ks = (\<not> distinct (map key_canon ks))"

text \<open>
  The order of keys: numbers by value, strings by code point (which is the order of
  their UTF-8 bytes), missing values last. Between a number and a string the order is a
  choice of the model (numbers first); \<open>sort_values\<close> below raises on such a column.
\<close>

fun str_lt :: "string \<Rightarrow> string \<Rightarrow> bool" where
  "str_lt s [] = False"
| "str_lt [] (d # ds) = True"
| "str_lt (c # cs) (d # ds) = ((of_char c :: nat) < of_char d \<or> (c = d \<and> str_lt cs ds))"

fun cell_rank :: "cell \<Rightarrow> nat" where
  "cell_rank (IntV i) = 0"
| "cell_rank (NumV r) = 0"
| "cell_rank (StrV s) = 1"
| "cell_rank (GeomV g) = 2"
| "cell_rank (Null k) = 3"

definition cell_lt :: "cell \<Rightarrow> cell \<Rightarrow> bool" where
  "cell_lt a b =
     (case (key_canon a, key_canon b) of
        (NumV x, NumV y) \<Rightarrow> x < y
      | (StrV s, StrV t) \<Rightarrow> str_lt s t
      | _ \<Rightarrow> cell_rank a < cell_rank b)"

text \<open>A stable insertion sort: an element goes before the first one it is not above.\<close>

fun insert_by :: "('a \<Rightarrow> 'a \<Rightarrow> bool) \<Rightarrow> 'a \<Rightarrow> 'a list \<Rightarrow> 'a list" where
  "insert_by lt x [] = [x]"
| "insert_by lt x (y # ys) = (if lt y x then y # insert_by lt x ys else x # y # ys)"

definition sort_by :: "('a \<Rightarrow> 'a \<Rightarrow> bool) \<Rightarrow> 'a list \<Rightarrow> 'a list" where
  "sort_by lt xs = foldr (insert_by lt) xs []"

text \<open>
  \<^verbatim>\<open>groupby(key)\<close> with its defaults: the groups are the distinct keys that are not
  missing, in sorted order; the rows of a group keep their order.
\<close>

definition group_keys :: "cell list \<Rightarrow> cell list" where
  "group_keys ks = sort_by cell_lt (remdups (map key_canon (filter (\<lambda>k. \<not> isna k) ks)))"

definition group_rows :: "string list \<Rightarrow> string \<Rightarrow> cell list list \<Rightarrow> cell \<Rightarrow> cell list list" where
  "group_rows cols key rs k = filter (\<lambda>r. key_canon (cell_of cols r key) = k) rs"

text \<open>
  The points of a cell of a geometry column (a missing shape has none), and the union of
  the shapes of a group.
\<close>

definition geom_of :: "cell \<Rightarrow> geometry" where
  "geom_of c = (case c of GeomV g \<Rightarrow> g | _ \<Rightarrow> {})"

definition unary_union :: "cell list \<Rightarrow> geometry" where
  "unary_union cs = \<Union> (set (map geom_of cs))"

text \<open>The aggregation \<^verbatim>\<open>first\<close>: the first value of the group that is not missing.\<close>

definition first_valid :: "cell list \<Rightarrow> cell" where
  "first_valid cs = (case filter (\<lambda>c. \<not> isna c) cs of [] \<Rightarrow> Null NaN | c # _ \<Rightarrow> c)"

text \<open>
  \<^verbatim>\<open>GeoDataFrame.dissolve(by=key, as_index=False)\<close> when it does not raise: one row per
  group, the key first, then the union of the group's shapes, then the first valid value
  of every other column.
\<close>

definition dissolve :: "string \<Rightarrow> frame \<Rightarrow> frame" where
  "dissolve key tmp =
     (let others = filter (\<lambda>c. c \<noteq> key \<and> c \<noteq> ''geometry'') (columns tmp)
      in \<lparr>columns = key # ''geometry'' # others,
          rows = map (\<lambda>k. let grp = group_rows (columns tmp) key (rows tmp) k
                          in first_valid (map (\<lambda>r. cell_of (columns tmp) r key) grp)
                             # GeomV (unary_union (map (\<lambda>r. cell_of (columns tmp) r ''geometry'') grp))
                             # map (\<lambda>c. first_valid (map (\<lambda>r. cell_of (columns tmp) r c) grp)) others)
                   (group_keys (column tmp key))\<rparr>)"

subsection \<open>Left merge\<close>

text \<open>
  \<^verbatim>\<open>left.merge(right, on=keys, how="left")\<close>. The columns are those of the left frame
  and, after them, those of the right frame without the keys; a label that both sides
  have outside the keys gets the suffix \<^verbatim>\<open>_x\<close> on the left and \<^verbatim>\<open>_y\<close> on the right. Each
  left row, in order, is joined with every right row of the same key, in order, and
  with missing values when there is none. A key column that one side lacks is a
  \<^verbatim>\<open>KeyError\<close>.
\<close>

definition key_of :: "string list \<Rightarrow> string list \<Rightarrow> cell list \<Rightarrow> cell list" where
  "key_of on cols r = map (\<lambda>k. key_canon (cell_of cols r k)) on"

definition merged_columns :: "string list \<Rightarrow> string list \<Rightarrow> string list \<Rightarrow> string list" where
  "merged_columns on lc rc =
     map (\<lambda>c. if c \<notin> set on \<and> c \<in> set rc then c @ ''_x'' else c) lc @
     map (\<lambda>c. if c \<in> set lc then c @ ''_y'' else c) (filter (\<lambda>c. c \<notin> set on) rc)"

definition right_part :: "string list \<Rightarrow> string list \<Rightarrow> cell list \<Rightarrow> cell list" where
  "right_part on rc r = map snd (filter (\<lambda>(c, v). c \<notin> set on) (zip rc r))"

definition matches_of :: "string list \<Rightarrow> frame \<Rightarrow> frame \<Rightarrow> cell list \<Rightarrow> cell list list" where
  "matches_of on L R l = filter (\<lambda>r. key_of on (columns R) r = key_of on (columns L) l) (rows R)"

definition joined_rows :: "string list \<Rightarrow> frame \<Rightarrow> frame \<Rightarrow> cell list \<Rightarrow> cell list list" where
  "joined_rows on L R l =
     (case matches_of on L R l of
        [] \<Rightarrow> [l @ replicate (length (filter (\<lambda>c. c \<notin> set on) (columns R))) (Null NaN)]
      | m # ms \<Rightarrow> map (\<lambda>r. l @ right_part on (columns R) r) (m # ms))"

definition merge_left :: "string list \<Rightarrow> frame \<Rightarrow> frame \<Rightarrow> error + frame" where
  "merge_left on L R =
     (case List.find (\<lambda>k. k \<notin> set (columns L) \<or> k \<notin> set (columns R)) on of
        Some k \<Rightarrow> Inl (KeyError k)
      | None \<Rightarrow>
          Inr \<lparr>columns = merged_columns on (columns L) (columns R),
               rows = concat (map (joined_rows on L R) (rows L))\<rparr>)"


text \<open>A frame is rectangular when every row has one cell per column.\<close>

definition rectangular :: "frame \<Rightarrow> bool" where
  "rectangular f = (\<forall>r \<in> set (rows f). length r = length (columns f))"

section \<open>Year-scoped join engine\<close>

subsection \<open>Deduplication of shapes\<close>

text \<open>
  The manual union of \<^verbatim>\<open>prepare_map_df\<close>, run when the dissolve raises: for every group
  of \<^verbatim>\<open>groupby(key)\<close> the first row of the group, with its shape replaced by the union of
  the group's shapes and its key by the group's key. The frame built from no rows has
  no columns. (\<^verbatim>\<open>grp.unary_union\<close> needs the geometry column.)
\<close>

definition manual_union :: "string \<Rightarrow> frame \<Rightarrow> error + frame" where
  "manual_union key view =
     (if ''geometry'' \<notin> set (columns view) then Inl AttributeError
      else
        let cols = columns view;
            grouped =
              map (\<lambda>k. let grp = group_rows cols key (rows view) k;
                          geom = GeomV (unary_union (map (\<lambda>r. cell_of cols r ''geometry'') grp));
                          key_val = first_valid (map (\<lambda>r. cell_of cols r key) grp)
                      in set_cell cols (set_cell cols (case grp of [] \<Rightarrow> [] | r # _ \<Rightarrow> r) ''geometry'' geom)
                           key key_val)
                (group_keys (column view key))
        in Inr \<lparr>columns = (if grouped = [] then [] else cols), rows = grouped\<rparr>)"

text \<open>
  The deduplication step, lines 262 to 278 (key \<^verbatim>\<open>geo_key\<close>) and 340 to 364 (the fallback
  key) of \<^verbatim>\<open>src/utils.py\<close>. Nothing happens unless a key occurs twice. Otherwise the
  columns \<^verbatim>\<open>[key, "geometry"]\<close> and \<^verbatim>\<open>"year"\<close> are selected and dissolved by the key; when
  the selection or the dissolve raises, the manual union runs instead. The fallback path
  also sets \<^verbatim>\<open>year\<close> when the dissolved frame lacks it.
\<close>

definition dedup_geometry :: "env \<Rightarrow> string \<Rightarrow> int \<Rightarrow> frame \<Rightarrow> error + frame" where
  "dedup_geometry E key year view =
     (if \<not> any_duplicated (column view key) then Inr view
      else
        let cols = [key, ''geometry''] @ (if ''year'' \<in> set (columns view) then [''year''] else [])
        in if set cols \<subseteq> set (columns view) \<and> \<not> dissolve_raises E key (rows (select_cols view cols))
           then (let d = dissolve key (select_cols view cols)
                 in Inr (if ''year'' \<in> set (columns d) then d
                         else set_column d ''year'' (replicate (length (rows d)) (IntV year))))
           else manual_union key view)"

subsection \<open>Simplification\<close>

text \<open>
  \<^verbatim>\<open>merged["geometry"] = merged["geometry"].simplify(...)\<close> inside \<^verbatim>\<open>try\<close>, with
  \<^verbatim>\<open>except Exception: pass\<close>: when the column is absent, holds something that is not a
  shape, or the library raises on a shape, the frame is left as it is.
\<close>

definition simplify_cell :: "env \<Rightarrow> cell \<Rightarrow> cell option" where
  "simplify_cell E c =
     (case c of GeomV g \<Rightarrow> map_option GeomV (simplify E g) | Null k \<Rightarrow> Some (Null k) | _ \<Rightarrow> None)"

definition simplify_geometry :: "env \<Rightarrow> frame \<Rightarrow> frame" where
  "simplify_geometry E merged =
     (if ''geometry'' \<notin> set (columns merged) then merged
      else (case those (map (simplify_cell E) (column merged ''geometry'')) of
              None \<Rightarrow> merged
            | Some gs \<Rightarrow> set_column merged ''geometry'' gs))"

subsection \<open>The preferred join, by composite key\<close>

text \<open>\<^verbatim>\<open>view_gdf[view_gdf["geo_key"].astype(str).str.len() > 0]\<close>\<close>

definition nonempty_key_rows :: "env \<Rightarrow> frame \<Rightarrow> frame" where
  "nonempty_key_rows E view =
     filter_rows (\<lambda>r. 0 < length (py_str E (cell_of (columns view) r ''geo_key''))) view"

text \<open>
  Lines 260 to 290: the turnout rows of the year (a \<^verbatim>\<open>KeyError\<close> when the turnout frame
  has no \<^verbatim>\<open>year\<close> column), the deduplication, the left merge on \<^verbatim>\<open>geo_key\<close>, the
  simplification.
\<close>

definition composite_join :: "env \<Rightarrow> frame \<Rightarrow> frame \<Rightarrow> int \<Rightarrow> error + frame" where
  "composite_join E view df_fed year =
     (if ''year'' \<notin> set (columns df_fed) then Inl (KeyError ''year'')
      else
        let df_year = year_rows df_fed year
        in (case dedup_geometry E ''geo_key'' year view of
              Inl e \<Rightarrow> Inl e
            | Inr deduped \<Rightarrow>
                (case merge_left [''geo_key''] deduped df_year of
                   Inl e \<Rightarrow> Inl e
                 | Inr merged \<Rightarrow> Inr (simplify_geometry E merged))))"

subsection \<open>The fallback join\<close>

text \<open>
  \<^verbatim>\<open>detect_join_key\<close>: a key of \<^verbatim>\<open>["riding_id", "riding_name", "name"]\<close> that both frames
  have; failing that, a key that both have up to the case of the letters, returned as
  the pair of the two labels. The dictionaries from lowered label to label keep the
  last column of each lowered label.
\<close>

datatype detected = NotFound | Shared string | Renamed string string

definition lower_lookup :: "string list \<Rightarrow> string \<Rightarrow> string option" where
  "lower_lookup cols key = List.find (\<lambda>c. str_lower c = key) (rev cols)"

definition detect_join_key :: "frame \<Rightarrow> frame \<Rightarrow> detected" where
  "detect_join_key gdf df =
     (let possible = [''riding_id'', ''riding_name'', ''name'']
      in (case List.find (\<lambda>key. key \<in> set (columns gdf) \<and> key \<in> set (columns df)) possible of
            Some key \<Rightarrow> Shared key
          | None \<Rightarrow>
              (case List.find (\<lambda>key. lower_lookup (columns gdf) key \<noteq> None \<and>
                                      lower_lookup (columns df) key \<noteq> None) possible of
                 None \<Rightarrow> NotFound
               | Some key \<Rightarrow>
                   (case (lower_lookup (columns gdf) key, lower_lookup (columns df) key) of
                      (Some gkey, Some dkey) \<Rightarrow> Renamed gkey dkey
                    | _ \<Rightarrow> NotFound))))"

text \<open>
  The previous-election turnout, lines 377 to 410: the turnout frame sorted by district
  and year, the turnout of the row before within the district
  (\<^verbatim>\<open>groupby(id)[...].shift(1)\<close>), the rows of the year, merged onto the joined frame, and
  the difference. \<^verbatim>\<open>sort_values\<close> raises on a column that mixes numbers and strings or
  holds shapes; the subtraction raises on a string or a shape.
\<close>

definition sortable :: "cell list \<Rightarrow> bool" where
  "sortable cs =
     ((\<forall>c \<in> set cs. cell_rank c = 0 \<or> cell_rank c = 3) \<or>
      (\<forall>c \<in> set cs. cell_rank c = 1 \<or> cell_rank c = 3))"

definition rows_lt :: "string list \<Rightarrow> string \<Rightarrow> string \<Rightarrow> cell list \<Rightarrow> cell list \<Rightarrow> bool" where
  "rows_lt cols k1 k2 r s =
     (cell_lt (cell_of cols r k1) (cell_of cols s k1) \<or>
      (key_canon (cell_of cols r k1) = key_canon (cell_of cols s k1) \<and>
       cell_lt (cell_of cols r k2) (cell_of cols s k2)))"

definition sort_values :: "string \<Rightarrow> string \<Rightarrow> frame \<Rightarrow> error + frame" where
  "sort_values k1 k2 f =
     (if k1 \<notin> set (columns f) then Inl (KeyError k1)
      else if k2 \<notin> set (columns f) then Inl (KeyError k2)
      else if \<not> sortable (column f k1) \<or> \<not> sortable (column f k2) then Inl TypeError
      else Inr (f\<lparr>rows := sort_by (rows_lt (columns f) k1 k2) (rows f)\<rparr>))"

fun group_shift :: "(cell \<times> cell) list \<Rightarrow> (cell \<times> cell) list \<Rightarrow> cell list" where
  "group_shift seen [] = []"
| "group_shift seen ((k, v) # kvs) =
     (if isna k then Null NaN # group_shift seen kvs
      else (case map_of seen (key_canon k) of None \<Rightarrow> Null NaN | Some p \<Rightarrow> p)
           # group_shift ((key_canon k, v) # seen) kvs)"

definition number_of :: "cell \<Rightarrow> rat option" where
  "number_of c = (case c of IntV i \<Rightarrow> Some (of_int i) | NumV r \<Rightarrow> Some r | _ \<Rightarrow> None)"

definition cell_sub :: "cell \<Rightarrow> cell \<Rightarrow> cell option" where
  "cell_sub a b =
     (if isna a \<or> isna b then Some (Null NaN)
      else (case (number_of a, number_of b) of
              (Some x, Some y) \<Rightarrow> Some (NumV (x - y))
            | _ \<Rightarrow> None))"

definition delta_turnout :: "frame \<Rightarrow> frame \<Rightarrow> int \<Rightarrow> error + frame" where
  "delta_turnout df_fed merged year =
     (if ''voter_participation_pct'' \<notin> set (columns df_fed) then Inr merged
      else
        let ident = (if ''riding_id'' \<in> set (columns df_fed) then ''riding_id'' else ''riding_name'')
        in (case sort_values ident ''year'' df_fed of
              Inl e \<Rightarrow> Inl e
            | Inr ordered \<Rightarrow>
                let df_sorted = set_column ordered ''prev_participation''
                      (group_shift [] (zip (column ordered ident) (column ordered ''voter_participation_pct'')));
                    prev = select_cols (year_rows df_sorted year) [ident, ''prev_participation'']
                in if ident \<notin> set (columns merged) then Inr merged
                   else (case merge_left [ident] merged prev of
                           Inl e \<Rightarrow> Inl e
                         | Inr m \<Rightarrow>
                             if ''voter_participation_pct'' \<notin> set (columns m)
                             then Inl (KeyError ''voter_participation_pct'')
                             else if ''prev_participation'' \<notin> set (columns m)
                             then Inl (KeyError ''prev_participation'')
                             else (case those (map (\<lambda>(a, b). cell_sub a b)
                                           (zip (column m ''voter_participation_pct'')
                                                (column m ''prev_participation''))) of
                                     None \<Rightarrow> Inl TypeError
                                   | Some d \<Rightarrow> Inr (set_column m ''delta_pct'' d)))))"

text \<open>
  What a call leaves behind: the value it returns or the error it raises, and the two
  frames of the caller as they are after the call.
\<close>

record call_result =
  outcome :: "error + frame"
  gdf_all_after :: frame
  df_fed_after :: frame

text \<open>
  Lines 330 to 420, after the join key is fixed and normalized: the rows with a missing
  key are dropped, the shapes deduplicated, the turnout rows of the year merged on, the
  previous turnout attached and the shapes simplified.
\<close>

definition missing_key :: "env \<Rightarrow> cell \<Rightarrow> bool" where
  "missing_key E c = (isna c \<or> length (py_str E c) = 0 \<or> str_lower (py_str E c) = ''none'')"

definition fallback_merge :: "env \<Rightarrow> string \<Rightarrow> frame \<Rightarrow> frame \<Rightarrow> int \<Rightarrow> error + frame" where
  "fallback_merge E join_key view df_fed year =
     (let kept = filter_rows (\<lambda>r. \<not> missing_key E (cell_of (columns view) r join_key)) view
      in if rows kept = [] then Inr kept
         else (case dedup_geometry E join_key year kept of
                 Inl e \<Rightarrow> Inl e
               | Inr deduped \<Rightarrow>
                   if ''year'' \<notin> set (columns df_fed) then Inl (KeyError ''year'')
                   else (case merge_left [join_key] deduped (year_rows df_fed year) of
                           Inl e \<Rightarrow> Inl e
                         | Inr merged \<Rightarrow>
                             if rows merged = [] then Inr merged
                             else (case delta_turnout df_fed merged year of
                                     Inl e \<Rightarrow> Inl e
                                   | Inr with_delta \<Rightarrow> Inr (simplify_geometry E with_delta)))))"

text \<open>
  Lines 295 to 328: the join key is the hint or the first of \<^verbatim>\<open>riding_id\<close>,
  \<^verbatim>\<open>riding_name\<close>, \<^verbatim>\<open>riding_num\<close>, \<^verbatim>\<open>name\<close> that both frames have, or else what
  \<^verbatim>\<open>detect_join_key\<close> finds; with none the call raises. When the two labels differ in
  case, the name \<^verbatim>\<open>df_fed\<close> is bound to a renamed copy. Then the key column is normalized
  on both sides by assignment: on the geometry side into the copy \<^verbatim>\<open>view_gdf\<close>, on the
  turnout side into whatever \<^verbatim>\<open>df_fed\<close> names, which is the caller's frame unless it was
  bound anew.
\<close>

definition normalize_key :: "env \<Rightarrow> string \<Rightarrow> cell \<Rightarrow> cell" where
  "normalize_key E join_key c =
     (if py_in ''name'' (str_lower join_key) then normalize_name E (StrV (py_str E c))
      else StrV (str_strip (py_str E c)))"

definition candidate_keys :: "string option \<Rightarrow> string list" where
  "candidate_keys join_key_hint =
     (case join_key_hint of None \<Rightarrow> [] | Some h \<Rightarrow> if h = [] then [] else [h]) @
     [''riding_id'', ''riding_name'', ''riding_num'', ''name'']"

definition find_join_key :: "frame \<Rightarrow> frame \<Rightarrow> string option \<Rightarrow> detected" where
  "find_join_key view_gdf df_fed join_key_hint =
     (case List.find (\<lambda>key. key \<in> set (columns view_gdf) \<and> key \<in> set (columns df_fed))
             (candidate_keys join_key_hint) of
        Some key \<Rightarrow> Shared key
      | None \<Rightarrow> detect_join_key view_gdf df_fed)"

definition normalized_keys :: "env \<Rightarrow> string \<Rightarrow> frame \<Rightarrow> frame" where
  "normalized_keys E join_key f =
     set_column f join_key (map (normalize_key E join_key) (column f join_key))"

definition fallback_join ::
  "env \<Rightarrow> frame \<Rightarrow> frame \<Rightarrow> frame \<Rightarrow> int \<Rightarrow> string option \<Rightarrow> call_result" where
  "fallback_join E gdf_all view_gdf df_fed year join_key_hint =
     (case find_join_key view_gdf df_fed join_key_hint of
        NotFound \<Rightarrow>
          \<lparr>outcome = Inl NoValidJoinKey, gdf_all_after = gdf_all, df_fed_after = df_fed\<rparr>
      | Shared join_key \<Rightarrow>
          \<lparr>outcome = fallback_merge E join_key (normalized_keys E join_key view_gdf)
                        (normalized_keys E join_key df_fed) year,
           gdf_all_after = gdf_all,
           df_fed_after = normalized_keys E join_key df_fed\<rparr>
      | Renamed gkey dkey \<Rightarrow>
          if dkey \<in> set (columns df_fed) \<and> gkey \<noteq> dkey
          then \<lparr>outcome = fallback_merge E gkey (normalized_keys E gkey view_gdf)
                             (normalized_keys E gkey (rename_column dkey gkey df_fed)) year,
                gdf_all_after = gdf_all,
                df_fed_after = df_fed\<rparr>
          else \<lparr>outcome = fallback_merge E gkey (normalized_keys E gkey view_gdf)
                             (normalized_keys E gkey df_fed) year,
                gdf_all_after = gdf_all,
                df_fed_after = normalized_keys E gkey df_fed\<rparr>)"

subsection \<open>prepare\_map\_df\<close>

text \<open>
  \<^verbatim>\<open>prepare_map_df(gdf_all, df_fed, year, join_key_hint)\<close> of \<^verbatim>\<open>src/utils.py\<close>. The
  geometry frame is renamed into a new frame and filtered into a copy, so the caller's
  \<^verbatim>\<open>gdf_all\<close> is never assigned to.
\<close>

definition year_named :: "frame \<Rightarrow> frame" where
  "year_named gdf_all =
     (if ''election_year'' \<in> set (columns gdf_all) \<and> ''year'' \<notin> set (columns gdf_all)
      then rename_column ''election_year'' ''year'' gdf_all else gdf_all)"

definition prepare_map_df ::
  "env \<Rightarrow> frame \<Rightarrow> frame \<Rightarrow> int \<Rightarrow> string option \<Rightarrow> call_result" where
  "prepare_map_df E gdf_all df_fed year join_key_hint =
     (let gdf = year_named gdf_all
      in if ''year'' \<notin> set (columns gdf)
         then \<lparr>outcome = Inl MissingYearColumn, gdf_all_after = gdf_all, df_fed_after = df_fed\<rparr>
         else
           let view_gdf = year_rows gdf year
           in if rows view_gdf = []
              then \<lparr>outcome = Inr view_gdf, gdf_all_after = gdf_all, df_fed_after = df_fed\<rparr>
              else if ''geo_key'' \<in> set (columns view_gdf) \<and> ''geo_key'' \<in> set (columns df_fed)
              then (let keyed = nonempty_key_rows E view_gdf
                    in if rows keyed \<noteq> []
                       then \<lparr>outcome = composite_join E keyed df_fed year,
                             gdf_all_after = gdf_all, df_fed_after = df_fed\<rparr>
                       else fallback_join E gdf_all keyed df_fed year join_key_hint)
              else fallback_join E gdf_all view_gdf df_fed year join_key_hint)"

section \<open>Municipal year join\<close>

text \<open>
  \<^verbatim>\<open>pd.to_numeric(errors="coerce")\<close> and \<^verbatim>\<open>astype(int)\<close> on one element. What is not a
  number becomes missing; a float is cut towards zero.
\<close>

definition to_numeric :: "env \<Rightarrow> cell \<Rightarrow> cell" where
  "to_numeric E c =
     (case c of
        IntV i \<Rightarrow> IntV i
      | NumV r \<Rightarrow> NumV r
      | StrV s \<Rightarrow> (case str_to_number E s of Some r \<Rightarrow> NumV r | None \<Rightarrow> Null NaN)
      | _ \<Rightarrow> Null NaN)"

definition astype_int :: "cell \<Rightarrow> cell" where
  "astype_int c = (case py_int c of Some i \<Rightarrow> IntV i | None \<Rightarrow> c)"

definition dropna_rows :: "string list \<Rightarrow> frame \<Rightarrow> frame" where
  "dropna_rows labels f = filter_rows (\<lambda>r. \<forall>c \<in> set labels. \<not> isna (cell_of (columns f) r c)) f"

text \<open>
  One side of \<^verbatim>\<open>prepare_municipal_year_gdf\<close> of \<^verbatim>\<open>src/utils_mun.py\<close> (lines 124 to 138): the
  rows of the year, \<^verbatim>\<open>Ward\<close> and \<^verbatim>\<open>Sub\<close> made numeric, the rows that miss one of them
  dropped, both cast to integers.
\<close>

definition aligned_side :: "env \<Rightarrow> int \<Rightarrow> frame \<Rightarrow> frame" where
  "aligned_side E year f =
     (let f0 = rows_equal f ''Year'' year;
          f1 = set_column f0 ''Ward'' (map (to_numeric E) (column f0 ''Ward''));
          f2 = set_column f1 ''Sub'' (map (to_numeric E) (column f1 ''Sub''));
          f3 = dropna_rows [''Ward'', ''Sub''] f2;
          f4 = set_column f3 ''Ward'' (map astype_int (column f3 ''Ward''))
      in set_column f4 ''Sub'' (map astype_int (column f4 ''Sub'')))"

text \<open>
  \<^verbatim>\<open>merge(..., how="left", validate="1:1")\<close>: a \<^verbatim>\<open>MergeError\<close> when the keys of the left
  rows or the keys of the right rows are not unique.
\<close>

definition merge_one_to_one :: "string list \<Rightarrow> frame \<Rightarrow> frame \<Rightarrow> error + frame" where
  "merge_one_to_one on L R =
     (case List.find (\<lambda>k. k \<notin> set (columns L) \<or> k \<notin> set (columns R)) on of
        Some k \<Rightarrow> Inl (KeyError k)
      | None \<Rightarrow>
          if \<not> distinct (map (key_of on (columns L)) (rows L)) \<or>
             \<not> distinct (map (key_of on (columns R)) (rows R))
          then Inl MergeError
          else merge_left on L R)"

text \<open>
  \<^verbatim>\<open>prepare_municipal_year_gdf(year, geom_gdf, turnout_df)\<close>. An absent column is a
  \<^verbatim>\<open>KeyError\<close> where the source first reads it: \<^verbatim>\<open>Year\<close> in the two filters, \<^verbatim>\<open>Ward\<close> and
  \<^verbatim>\<open>Sub\<close> in the loop over the two columns (geometry side first), \<^verbatim>\<open>PctVoted\<close> in the
  selection of the turnout columns.
\<close>

definition municipal_keys :: "string list" where
  "municipal_keys = [''Year'', ''Ward'', ''Sub'']"

definition prepare_municipal_year_gdf :: "env \<Rightarrow> int \<Rightarrow> frame \<Rightarrow> frame \<Rightarrow> error + frame" where
  "prepare_municipal_year_gdf E year geom_gdf turnout_df =
     (case List.find (\<lambda>c. c \<notin> set (columns geom_gdf) \<or> c \<notin> set (columns turnout_df)) municipal_keys of
        Some c \<Rightarrow> Inl (KeyError c)
      | None \<Rightarrow>
          let g_year = aligned_side E year geom_gdf;
              t_year = aligned_side E year turnout_df
          in if ''PctVoted'' \<notin> set (columns t_year) then Inl (KeyError ''PctVoted'')
             else merge_one_to_one municipal_keys g_year
                    (select_cols t_year (municipal_keys @ [''PctVoted''])))"

section \<open>Environments and frames for the examples\<close>

text \<open>
  Two environments: in the first the library never raises and \<^verbatim>\<open>simplify\<close> returns the
  shape as it is; in the second \<^verbatim>\<open>dissolve\<close> and \<^verbatim>\<open>simplify\<close> always raise. The printing of
  floats and shapes and the reading of numbers do not matter in the examples.
\<close>

definition calm_env :: env where
  "calm_env =
     \<lparr>float_str = (\<lambda>r. ''0.0''), geom_str = (\<lambda>g. ''POLYGON EMPTY''),
      str_to_number = (\<lambda>s. None), dissolve_raises = (\<lambda>key rs. False), simplify = Some\<rparr>"

definition raising_env :: env where
  "raising_env =
     \<lparr>float_str = (\<lambda>r. ''0.0''), geom_str = (\<lambda>g. ''POLYGON EMPTY''),
      str_to_number = (\<lambda>s. None), dissolve_raises = (\<lambda>key rs. True), simplify = (\<lambda>g. None)\<rparr>"

text \<open>
  The scenario of the specification: two shapes keyed \<^verbatim>\<open>2015__42\<close>, a third district
  \<^verbatim>\<open>2015__7\<close> without turnout, a shape of another year, and one turnout record for
  \<^verbatim>\<open>2015__42\<close> with turnout 61.2.
\<close>

definition gdf_2015 :: frame where
  "gdf_2015 =
     \<lparr>columns = [''year'', ''geo_key'', ''geometry''],
      rows = [[IntV 2015, StrV ''2015__42'', GeomV {1, 2}],
              [IntV 2015, StrV ''2015__7'', GeomV {5}],
              [IntV 2015, StrV ''2015__42'', GeomV {2, 3}],
              [IntV 2011, StrV ''2011__42'', GeomV {1, 2, 3}]]\<rparr>"

definition df_2015 :: frame where
  "df_2015 =
     \<lparr>columns = [''year'', ''geo_key'', ''voter_participation_pct''],
      rows = [[IntV 2015, StrV ''2015__42'', NumV (612 / 10)],
              [IntV 2011, StrV ''2011__42'', NumV 58]]\<rparr>"


text \<open>
  Frames without composite keys, for the fallback join: the shapes carry the district
  name, the turnout carries it in another spelling. The third frame is a geometry frame
  with no year column.
\<close>

definition gdf_names :: frame where
  "gdf_names =
     \<lparr>columns = [''year'', ''riding_name'', ''geometry''],
      rows = [[IntV 2015, StrV ''Toronto Centre'', GeomV {1}]]\<rparr>"

definition df_names :: frame where
  "df_names =
     \<lparr>columns = [''year'', ''riding_name'', ''voter_participation_pct''],
      rows = [[IntV 2015, StrV ''  Toronto   CENTRE '', NumV (612 / 10)]]\<rparr>"




text \<open>
  Municipal frames: two subdivisions of ward 1 in 2018 and one in 2014; a turnout frame
  with one record of 2018, and one that repeats it.
\<close>

definition mun_geom :: frame where
  "mun_geom =
     \<lparr>columns = [''Year'', ''Ward'', ''Sub'', ''geometry''],
      rows = [[IntV 2018, IntV 1, IntV 1, GeomV {1}],
              [IntV 2018, IntV 1, IntV 2, GeomV {2}],
              [IntV 2014, IntV 1, IntV 1, GeomV {3}]]\<rparr>"

definition mun_turnout :: frame where
  "mun_turnout =
     \<lparr>columns = [''Year'', ''Ward'', ''Sub'', ''PctVoted''],
      rows = [[IntV 2018, IntV 1, IntV 1, NumV (415 / 10)]]\<rparr>"

definition mun_turnout_twice :: frame where
  "mun_turnout_twice =
     \<lparr>columns = [''Year'', ''Ward'', ''Sub'', ''PctVoted''],
      rows = [[IntV 2018, IntV 1, IntV 1, NumV (415 / 10)],
              [IntV 2018, IntV 1, IntV 1, NumV 40]]\<rparr>"

section \<open>Properties: the string functions\<close>


lemma is_space_lower_char: "is_space (lower_char c) = is_space c"
  by (simp add: lower_char_def is_space_def)

lemma lower_char_space: "lower_char (CHR '' '') = CHR '' ''"
  by (simp add: lower_char_def)

lemma lower_char_idem: "lower_char (lower_char c) = lower_char c"
  by (simp add: lower_char_def)

lemma str_lower_idem: "str_lower (str_lower s) = str_lower s"
  by (simp add: str_lower_def lower_char_idem)

lemma dropWhile_space_lower:
  "dropWhile is_space (map lower_char s) = map lower_char (dropWhile is_space s)"
  by (induction s) (simp_all add: is_space_lower_char)

lemma str_strip_lower: "str_strip (str_lower s) = str_lower (str_strip s)"
  by (simp add: str_strip_def str_lower_def dropWhile_space_lower rev_map)

lemma collapse_ws_lower: "collapse_ws (str_lower s) = str_lower (collapse_ws s)"
  unfolding str_lower_def
  by (induction s rule: collapse_ws.induct)
     (simp_all add: is_space_lower_char lower_char_space dropWhile_space_lower)

lemma dropWhile_space_head:
  "dropWhile is_space s = [] \<or> \<not> is_space (hd (dropWhile is_space s))"
  by (induction s) simp_all

lemma collapse_ws_head:
  "s \<noteq> [] \<Longrightarrow> \<not> is_space (hd s) \<Longrightarrow> collapse_ws s \<noteq> [] \<and> hd (collapse_ws s) = hd s"
  by (cases s) simp_all

lemma dropWhile_collapse_ws:
  "s = [] \<or> \<not> is_space (hd s) \<Longrightarrow> dropWhile is_space (collapse_ws s) = collapse_ws s"
  by (cases s) simp_all

lemma collapse_ws_idem: "collapse_ws (collapse_ws s) = collapse_ws s"
proof (induction s rule: collapse_ws.induct)
  case 1
  show ?case by simp
next
  case (2 c cs)
  show ?case
  proof (cases "is_space c")
    case True
    have sp: "is_space (CHR '' '')" by (simp add: is_space_def)
    have "dropWhile is_space (collapse_ws (dropWhile is_space cs)) = collapse_ws (dropWhile is_space cs)"
      by (rule dropWhile_collapse_ws) (rule dropWhile_space_head)
    with True sp 2 show ?thesis by simp
  next
    case False
    with 2 show ?thesis by simp
  qed
qed

lemma dropWhile_last:
  "s \<noteq> [] \<Longrightarrow> \<not> P (last s) \<Longrightarrow> dropWhile P s \<noteq> [] \<and> last (dropWhile P s) = last s"
  by (induction s) (auto split: if_splits)

lemma collapse_ws_last:
  "s \<noteq> [] \<Longrightarrow> \<not> is_space (last s) \<Longrightarrow>
   collapse_ws s \<noteq> [] \<and> \<not> is_space (last (collapse_ws s))"
proof (induction s rule: collapse_ws.induct)
  case 1
  then show ?case by simp
next
  case (2 c cs)
  show ?case
  proof (cases "is_space c")
    case True
    with 2(3,4) have cs: "cs \<noteq> []" "\<not> is_space (last cs)" by (auto split: if_splits)
    then have "dropWhile is_space cs \<noteq> [] \<and> last (dropWhile is_space cs) = last cs"
      by (intro dropWhile_last)
    with 2(1)[OF True] cs True show ?thesis by simp
  next
    case False
    show ?thesis
    proof (cases cs)
      case Nil
      with False show ?thesis by simp
    next
      case (Cons d ds)
      with 2(2)[OF False] 2(4) False show ?thesis by simp
    qed
  qed
qed

lemma dropWhile_keep: "xs \<noteq> [] \<Longrightarrow> \<not> P (hd xs) \<Longrightarrow> dropWhile P xs = xs"
  by (cases xs) simp_all

lemma str_strip_ends:
  assumes "str_strip s \<noteq> []"
  shows "\<not> is_space (hd (str_strip s)) \<and> \<not> is_space (last (str_strip s))"
proof -
  define u where "u = dropWhile is_space s"
  define w where "w = dropWhile is_space (rev u)"
  have s: "str_strip s = rev w" by (simp add: str_strip_def u_def w_def)
  with assms have w: "w \<noteq> []" by simp
  then have hw: "\<not> is_space (hd w)" unfolding w_def by (rule hd_dropWhile)
  from w have u: "u \<noteq> []" unfolding w_def by auto
  then have hu: "\<not> is_space (hd u)" unfolding u_def by (rule hd_dropWhile)
  from u hu have "rev u \<noteq> []" "\<not> is_space (last (rev u))" by (simp_all add: last_rev)
  then have "last w = last (rev u)" unfolding w_def using dropWhile_last by blast
  with u have lw: "last w = hd u" by (simp add: last_rev)
  from w have "hd (rev w) = last w" "last (rev w) = hd w" by (simp_all add: hd_rev last_rev)
  with lw hu hw s show ?thesis by simp
qed

lemma str_strip_fixed:
  assumes "s \<noteq> []" "\<not> is_space (hd s)" "\<not> is_space (last s)"
  shows "str_strip s = s"
proof -
  have 1: "dropWhile is_space s = s" using assms(1,2) by (rule dropWhile_keep)
  have "rev s \<noteq> []" "\<not> is_space (hd (rev s))" using assms(1,3) by (simp_all add: hd_rev)
  then have "dropWhile is_space (rev s) = rev s" by (rule dropWhile_keep)
  with 1 show ?thesis by (simp add: str_strip_def)
qed

lemma str_strip_Nil: "str_strip [] = []"
  by (simp add: str_strip_def)

lemma collapse_strip_fixed:
  "str_strip (collapse_ws (str_strip s)) = collapse_ws (str_strip s)"
proof (cases "str_strip s = []")
  case True
  then show ?thesis by (simp add: str_strip_Nil)
next
  case False
  define t where "t = str_strip s"
  from False str_strip_ends[OF False] have e: "t \<noteq> []" "\<not> is_space (hd t)" "\<not> is_space (last t)"
    by (simp_all add: t_def)
  from collapse_ws_head[OF e(1,2)] e(2) have h: "collapse_ws t \<noteq> []" "\<not> is_space (hd (collapse_ws t))"
    by simp_all
  from collapse_ws_last[OF e(1,3)] have l: "\<not> is_space (last (collapse_ws t))" by simp
  from h l have "str_strip (collapse_ws t) = collapse_ws t" by (rule str_strip_fixed)
  then show ?thesis by (simp add: t_def)
qed

lemma normalize_name_idem: "normalize_name E (normalize_name E c) = normalize_name E c"
proof -
  let ?w = "collapse_ws (str_strip (py_str E (fillna_empty c)))"
  have "str_lower (collapse_ws (str_strip (str_lower ?w))) = str_lower (str_lower (collapse_ws (str_strip ?w)))"
    by (simp add: str_strip_lower collapse_ws_lower)
  also have "\<dots> = str_lower ?w"
    by (simp add: str_lower_idem collapse_strip_fixed collapse_ws_idem)
  finally show ?thesis by (simp add: normalize_name_def fillna_empty_def isna_def)
qed

lemma normalize_names_idem: "normalize_names E (normalize_names E xs) = normalize_names E xs"
  by (simp add: normalize_names_def normalize_name_idem)

text \<open>
  Claim C5 (identifier normalizers are idempotent). \<^verbatim>\<open>normalize_names\<close> is idempotent
  (\<open>normalize_names_idem\<close> above). \<^verbatim>\<open>normalize_one\<close> is not: it replaces each pair of
  spaces by one space in a single pass, so a run of three spaces leaves two, which the
  next application shortens again. On the input \<^verbatim>\<open>"a   b"\<close> the first application
  gives \<^verbatim>\<open>"a  b"\<close> and the second gives \<^verbatim>\<open>"a b"\<close>.
\<close>

theorem normalize_one_not_idempotent:
  "normalize_one (StrV ''a   b'') = ''a  b'' \<and>
   normalize_one (StrV (normalize_one (StrV ''a   b''))) = ''a b'' \<and>
   normalize_one (StrV (normalize_one (StrV ''a   b''))) \<noteq> normalize_one (StrV ''a   b'')"
  by (simp add: normalize_one_def str_strip_def is_space_def str_lower_def lower_char_def
      str_replace.simps em_dash_def en_dash_def)

section \<open>Properties: the column resolver\<close>

lemma py_in_sublist: "py_in sub s = sublist sub s"
  by (induction s) (simp_all add: sublist_Cons_right)

lemma keyword_hit_iff:
  "keyword_hit kws low = (\<exists>kw \<in> set kws. sublist (str_lower kw) low)"
  by (induction kws) (simp_all add: py_in_sublist)

lemma find_col_loop_find:
  "find_col_loop cs kws = List.find (label_contains_keyword kws) cs"
  by (induction cs) (simp_all add: keyword_hit_iff Let_def label_contains_keyword_def)

text \<open>
  Claim C7 (the column resolver). The resolver returns the first column, in column
  order and as it was given, whose label contains a keyword, and \<open>None\<close> when no
  column does or when there are no columns; the result is a function of the two lists
  alone. The source only reads \<^verbatim>\<open>cols\<close> (it has no assignment to it), which the
  embedding shows as a function that returns nothing but the result.
\<close>

theorem find_col_by_keywords_first_match:
  "find_col_by_keywords None kws = None \<and>
   find_col_by_keywords (Some cols) kws = List.find (label_contains_keyword kws) cols \<and>
   ((find_col_by_keywords (Some cols) kws = None) =
      (\<forall>c \<in> set cols. \<not> label_contains_keyword kws c)) \<and>
   ((find_col_by_keywords (Some cols) kws = Some c) =
      (\<exists>i < length cols. cols ! i = c \<and> label_contains_keyword kws c \<and>
         (\<forall>j < i. \<not> label_contains_keyword kws (cols ! j))))"
proof -
  have f: "find_col_by_keywords (Some cols) kws = List.find (label_contains_keyword kws) cols"
    by (simp add: find_col_by_keywords_def find_col_loop_find)
  have n: "(List.find (label_contains_keyword kws) cols = None) =
      (\<forall>c \<in> set cols. \<not> label_contains_keyword kws c)"
    by (auto simp: find_None_iff)
  have s: "(List.find (label_contains_keyword kws) cols = Some c) =
      (\<exists>i < length cols. cols ! i = c \<and> label_contains_keyword kws c \<and>
         (\<forall>j < i. \<not> label_contains_keyword kws (cols ! j)))"
    by (auto simp: find_Some_iff)
  show ?thesis
    unfolding f n s by (simp add: find_col_by_keywords_def)
qed

text \<open>
  The theorem at the header row \<^verbatim>\<open>["Province", " Election YEAR ", "year2"]\<close> with
  the keywords \<^verbatim>\<open>["foo", "Year"]\<close>: the second column is returned, untrimmed; the
  third also contains the keyword and loses to it.
\<close>

theorem find_col_by_keywords_first_match_witness:
  "find_col_by_keywords (Some [''Province'', '' Election YEAR '', ''year2'']) [''foo'', ''Year'']
     = Some '' Election YEAR '' \<and>
   label_contains_keyword [''foo'', ''Year''] ''year2'' \<and>
   \<not> label_contains_keyword [''foo'', ''Year''] ''Province''"
proof -
  have m: "label_contains_keyword [''foo'', ''Year''] '' Election YEAR ''"
    "label_contains_keyword [''foo'', ''Year''] ''year2''"
    "\<not> label_contains_keyword [''foo'', ''Year''] ''Province''"
    by (simp_all add: label_contains_keyword_def str_strip_def is_space_def str_lower_def
        lower_char_def py_in_sublist [symmetric])
  from m show ?thesis
    using find_col_by_keywords_first_match
      [of "[''foo'', ''Year'']" "[''Province'', '' Election YEAR '', ''year2'']"]
    by simp
qed

section \<open>Properties: the percentage field\<close>









section \<open>Properties: the composite key\<close>

lemma str_int_2015: "str_int 2015 = ''2015''"
  by (simp add: str_int_def str_nat.simps digit_char_def)

lemma geo_key_missing_year:
  "isna y \<Longrightarrow> gpkg_geo_key E (Some y) i = ''__'' @ str_strip (py_str E (get_or_empty i))"
  "isna y \<Longrightarrow> csv_geo_key E (Some y) i = ''__'' @ str_strip (py_str E (get_or_empty i))"
  by (simp_all add: gpkg_geo_key_def csv_geo_key_def safe_str_def safe_str_intlike_def
      get_or_empty_def)

text \<open>
  Claim C3 (composite key with missing values). A missing year gives the empty year
  component (\<open>geo_key_missing_year\<close>), and the key is a string in every case. A missing
  district id does not give the empty component: the id goes through \<^verbatim>\<open>str\<close>, which
  prints \<^verbatim>\<open>None\<close> as \<^verbatim>\<open>"None"\<close> and a NaN as \<^verbatim>\<open>"nan"\<close>. For the year 2015 the key is
  \<^verbatim>\<open>"2015__None"\<close> on the geometry side when the file has no id column, \<^verbatim>\<open>"2015__nan"\<close>
  when an alias id column has a missing entry, and \<^verbatim>\<open>"2015__None"\<close> on the turnout side
  for a missing \<^verbatim>\<open>riding_num\<close> entry; the claim says \<^verbatim>\<open>"2015__"\<close>.
\<close>

theorem geo_key_missing_id:
  "gpkg_geo_key E (Some (IntV 2015)) (Some (Null PyNone)) = ''2015__None'' \<and>
   gpkg_geo_key E (Some (IntV 2015)) (Some (gpkg_riding_num E (Null NaN))) = ''2015__nan'' \<and>
   csv_geo_key E (Some (IntV 2015)) (Some (csv_riding_num E (Null NaN))) = ''2015__None'' \<and>
   gpkg_geo_key E (Some (IntV 2015)) (Some (Null PyNone)) \<noteq> ''2015__'' \<and>
   csv_geo_key E (Some (IntV 2015)) (Some (csv_riding_num E (Null NaN))) \<noteq> ''2015__''"
  by (simp add: gpkg_geo_key_def csv_geo_key_def safe_str_def safe_str_intlike_def
      get_or_empty_def isna_def str_int_2015 str_strip_def is_space_def
      gpkg_riding_num_def csv_riding_num_def)

section \<open>Properties: frames, sorting and merging\<close>

lemma map_of_zip_map_same: "c \<in> set cs \<Longrightarrow> map_of (zip cs (map f cs)) c = Some (f c)"
  by (induction cs) auto

lemma cell_of_map: "c \<in> set cs \<Longrightarrow> cell_of cs (map f cs) c = f c"
  by (simp add: cell_of_def map_of_zip_map_same)

lemma cell_of_head: "cell_of (c # cs) (v # vs) c = v"
  by (simp add: cell_of_def)

lemma cell_of_tail: "c \<noteq> d \<Longrightarrow> cell_of (d # cs) (v # vs) c = cell_of cs vs c"
  by (simp add: cell_of_def)

lemma cell_of_append:
  "length r = length cols \<Longrightarrow> c \<in> set cols \<Longrightarrow> cell_of (cols @ ds) (r @ vs) c = cell_of cols r c"
proof -
  assume l: "length r = length cols" and c: "c \<in> set cols"
  then have "c \<in> dom (map_of (zip cols r))" by (simp add: dom_map_of_zip)
  then obtain v where "map_of (zip cols r) c = Some v" by auto
  with l show ?thesis by (simp add: cell_of_def map_of_append zip_append)
qed

lemma map_of_set_cell:
  "map_of (zip cols (set_cell cols r c v)) d =
   map_option (\<lambda>x. if d = c then v else x) (map_of (zip cols r) d)"
proof (induction cols arbitrary: r)
  case Nil
  show ?case by (simp add: set_cell_def)
next
  case (Cons a cols)
  show ?case
  proof (cases r)
    case Nil
    then show ?thesis by (simp add: set_cell_def)
  next
    case (Cons x xs)
    with Cons.IH[of xs] show ?thesis by (simp add: set_cell_def)
  qed
qed

lemma cell_of_set_cell:
  "length r = length cols \<Longrightarrow> c \<in> set cols \<Longrightarrow>
   cell_of cols (set_cell cols r c v) d = (if d = c then v else cell_of cols r d)"
proof -
  assume l: "length r = length cols" and c: "c \<in> set cols"
  then have "c \<in> dom (map_of (zip cols r))" by (simp add: dom_map_of_zip)
  then obtain x where "map_of (zip cols r) c = Some x" by auto
  then show ?thesis by (auto simp: cell_of_def map_of_set_cell split: option.splits)
qed

lemma length_set_cell: "length r = length cols \<Longrightarrow> length (set_cell cols r c v) = length cols"
  by (simp add: set_cell_def)

lemma set_insert_by: "set (insert_by lt x xs) = insert x (set xs)"
  by (induction xs) auto

lemma set_sort_by: "set (sort_by lt xs) = set xs"
  by (induction xs) (simp_all add: sort_by_def set_insert_by)

lemma distinct_insert_by: "distinct (insert_by lt x xs) = (x \<notin> set xs \<and> distinct xs)"
  by (induction xs) (auto simp: set_insert_by)

lemma distinct_sort_by: "distinct (sort_by lt xs) = distinct xs"
proof (induction xs)
  case Nil
  show ?case by (simp add: sort_by_def)
next
  case (Cons x xs)
  have "sort_by lt (x # xs) = insert_by lt x (sort_by lt xs)" by (simp add: sort_by_def)
  with Cons show ?case by (simp add: distinct_insert_by set_sort_by)
qed

lemma length_insert_by: "length (insert_by lt x xs) = Suc (length xs)"
  by (induction xs) simp_all

lemma distinct_group_keys: "distinct (group_keys ks)"
  by (simp add: group_keys_def distinct_sort_by)

lemma set_group_keys: "set (group_keys ks) = key_canon ` {k \<in> set ks. \<not> isna k}"
  by (auto simp: group_keys_def set_sort_by)

lemma isna_key_canon: "isna (key_canon c) = isna c"
  by (cases c) (simp_all add: key_canon_def isna_def)

lemma first_valid_hd: "cs \<noteq> [] \<Longrightarrow> \<forall>c \<in> set cs. \<not> isna c \<Longrightarrow> first_valid cs = hd cs"
  by (cases cs) (simp_all add: first_valid_def)





lemma merge_left_Inr:
  "merge_left on L R = Inr M \<Longrightarrow>
   columns M = merged_columns on (columns L) (columns R) \<and>
   rows M = concat (map (joined_rows on L R) (rows L))"
  by (auto simp: merge_left_def split: option.splits)





section \<open>Properties: the join engine\<close>

lemma columns_year_rows: "columns (year_rows f y) = columns f"
  by (simp add: year_rows_def rows_equal_def filter_rows_def)


lemma year_named_has_year:
  "(''year'' \<in> set (columns (year_named g))) =
   (''year'' \<in> set (columns g) \<or> ''election_year'' \<in> set (columns g))"
  by (auto simp: year_named_def rename_column_def)

text \<open>The geometry frame of the caller is never assigned to.\<close>

lemma gdf_all_untouched: "gdf_all_after (prepare_map_df E gdf_all df_fed year hint) = gdf_all"
  by (simp add: prepare_map_df_def fallback_join_def Let_def split: detected.splits)

text \<open>
  Claim C9 (no geometry for the year). When the geometry frame has a year column
  (\<^verbatim>\<open>year\<close>, or \<^verbatim>\<open>election_year\<close> to be renamed) and none of its rows is of the requested
  year, the call returns the frame with the geometry columns and no rows; it does not
  raise, and it leaves both frames of the caller as they were.
\<close>

theorem prepare_map_df_empty_year:
  assumes "''year'' \<in> set (columns gdf_all) \<or> ''election_year'' \<in> set (columns gdf_all)"
      and "rows (year_rows (year_named gdf_all) year) = []"
  shows "outcome (prepare_map_df E gdf_all df_fed year hint) =
           Inr \<lparr>columns = columns (year_named gdf_all), rows = []\<rparr> \<and>
         gdf_all_after (prepare_map_df E gdf_all df_fed year hint) = gdf_all \<and>
         df_fed_after (prepare_map_df E gdf_all df_fed year hint) = df_fed"
proof -
  from assms(1) have y: "''year'' \<in> set (columns (year_named gdf_all))"
    by (simp add: year_named_has_year)
  have "year_rows (year_named gdf_all) year = \<lparr>columns = columns (year_named gdf_all), rows = []\<rparr>"
    using assms(2) columns_year_rows[of "year_named gdf_all" year]
    by (cases "year_rows (year_named gdf_all) year") simp
  with y assms(2) show ?thesis by (simp add: prepare_map_df_def Let_def)
qed

text \<open>The theorem at the scenario's frames and the year 2019, of which they have no row.\<close>

theorem prepare_map_df_empty_year_witness:
  "outcome (prepare_map_df calm_env gdf_2015 df_2015 2019 None) =
     Inr \<lparr>columns = [''year'', ''geo_key'', ''geometry''], rows = []\<rparr> \<and>
   df_fed_after (prepare_map_df calm_env gdf_2015 df_2015 2019 None) = df_2015"
proof -
  have c: "''year'' \<in> set (columns gdf_2015) \<or> ''election_year'' \<in> set (columns gdf_2015)"
    by (simp add: gdf_2015_def)
  have n: "year_named gdf_2015 = gdf_2015"
    by (simp add: year_named_def gdf_2015_def)
  have e: "rows (year_rows (year_named gdf_2015) 2019) = []"
    unfolding n by (simp add: gdf_2015_def year_rows_def rows_equal_def filter_rows_def
        cell_of_def eq_int_def)
  from prepare_map_df_empty_year[OF c e, of calm_env df_2015 None] show ?thesis
    by (simp add: n) (simp add: gdf_2015_def)
qed

subsection \<open>Raising\<close>







lemma find_Some_holds: "List.find P xs = Some x \<Longrightarrow> x \<in> set xs \<and> P x"
  by (induction xs) (auto split: if_splits)

lemma lower_lookup_in_columns: "lower_lookup cols key = Some c \<Longrightarrow> c \<in> set cols"
  by (auto simp: lower_lookup_def dest: find_Some_holds)

lemma detect_join_key_in_columns:
  "detect_join_key gdf df = Shared k \<Longrightarrow> k \<in> set (columns gdf) \<and> k \<in> set (columns df)"
  "detect_join_key gdf df = Renamed g d \<Longrightarrow> g \<in> set (columns gdf) \<and> d \<in> set (columns df)"
proof -
  let ?exact = "List.find (\<lambda>key. key \<in> set (columns gdf) \<and> key \<in> set (columns df))
                  [''riding_id'', ''riding_name'', ''name'']"
  show "k \<in> set (columns gdf) \<and> k \<in> set (columns df)" if "detect_join_key gdf df = Shared k"
  proof (cases ?exact)
    case None
    with that show ?thesis
      by (simp only: detect_join_key_def Let_def) (auto split: option.splits)
  next
    case (Some key)
    with that have "key = k" by (simp only: detect_join_key_def Let_def) simp
    with find_Some_holds[OF Some] show ?thesis by simp
  qed
  show "g \<in> set (columns gdf) \<and> d \<in> set (columns df)" if "detect_join_key gdf df = Renamed g d"
  proof (cases ?exact)
    case None
    with that obtain key where "lower_lookup (columns gdf) key = Some g"
      "lower_lookup (columns df) key = Some d"
      by (simp only: detect_join_key_def Let_def) (auto split: option.splits)
    then show ?thesis by (auto dest: lower_lookup_in_columns)
  next
    case (Some key)
    with that show ?thesis by (simp only: detect_join_key_def Let_def) simp
  qed
qed

text \<open>The join key that is found is a column of both frames, so reading it cannot fail.\<close>

lemma find_join_key_in_columns:
  "find_join_key view df hint = Shared k \<Longrightarrow> k \<in> set (columns view) \<and> k \<in> set (columns df)"
  "find_join_key view df hint = Renamed g d \<Longrightarrow> g \<in> set (columns view) \<and> d \<in> set (columns df)"
  using detect_join_key_in_columns[of view df]
  by (auto simp: find_join_key_def split: option.splits dest: find_Some_holds)

lemma manual_union_returns:
  "''geometry'' \<in> set (columns view) \<Longrightarrow> \<exists>v. manual_union key view = Inr v"
  by (simp add: manual_union_def Let_def)

lemma dedup_geometry_returns:
  "''geometry'' \<in> set (columns view) \<Longrightarrow> \<exists>v. dedup_geometry E key year view = Inr v"
  using manual_union_returns[of view key] by (auto simp: dedup_geometry_def Let_def)






subsection \<open>The frames of the caller\<close>

lemma composite_path_untouched:
  assumes "''geo_key'' \<in> set (columns (year_named gdf_all))" "''geo_key'' \<in> set (columns df_fed)"
      and "rows (nonempty_key_rows E (year_rows (year_named gdf_all) year)) \<noteq> []"
  shows "df_fed_after (prepare_map_df E gdf_all df_fed year hint) = df_fed"
  using assms by (simp add: prepare_map_df_def Let_def columns_year_rows)

text \<open>
  Claim C8 (the inputs are not mutated). The geometry frame of the caller is never
  assigned to (\<open>gdf_all_untouched\<close>), and on the composite-key path neither is the
  turnout frame (\<open>composite_path_untouched\<close>). On the fallback path the source assigns
  the normalized key column into \<^verbatim>\<open>df_fed\<close>, which is the caller's frame: after the call
  on the frames below, the caller's \<^verbatim>\<open>riding_name\<close> column holds \<^verbatim>\<open>"toronto centre"\<close>
  where it held \<^verbatim>\<open>"  Toronto   CENTRE "\<close>.
\<close>

theorem fallback_join_mutates_turnout:
  "df_fed_after (prepare_map_df calm_env gdf_names df_names 2015 None) =
     \<lparr>columns = [''year'', ''riding_name'', ''voter_participation_pct''],
      rows = [[IntV 2015, StrV ''toronto centre'', NumV (612 / 10)]]\<rparr> \<and>
   df_fed_after (prepare_map_df calm_env gdf_names df_names 2015 None) \<noteq> df_names \<and>
   gdf_all_after (prepare_map_df calm_env gdf_names df_names 2015 None) = gdf_names"
proof -
  have k: "find_join_key (year_rows gdf_names 2015) df_names None = Shared ''riding_name''"
    by (simp add: find_join_key_def candidate_keys_def columns_year_rows)
       (simp add: gdf_names_def df_names_def)
  have s: "normalized_keys calm_env ''riding_name'' df_names =
     \<lparr>columns = [''year'', ''riding_name'', ''voter_participation_pct''],
      rows = [[IntV 2015, StrV ''toronto centre'', NumV (612 / 10)]]\<rparr>"
    by (simp add: normalized_keys_def normalize_key_def normalize_name_def fillna_empty_def
        isna_def df_names_def set_column_def set_cell_def column_def cell_of_def
        str_lower_def lower_char_def str_strip_def is_space_def)
  have v: "rows (year_rows gdf_names 2015) \<noteq> []"
    by (simp add: gdf_names_def year_rows_def rows_equal_def filter_rows_def cell_of_def eq_int_def)
  have c: "''year'' \<in> set (columns gdf_names)" "''geo_key'' \<notin> set (columns gdf_names)"
    "year_named gdf_names = gdf_names"
    by (simp_all add: gdf_names_def year_named_def)
  have a: "df_fed_after (prepare_map_df calm_env gdf_names df_names 2015 None) =
      normalized_keys calm_env ''riding_name'' df_names"
    using v c by (simp add: prepare_map_df_def fallback_join_def k columns_year_rows)
  have d: "normalized_keys calm_env ''riding_name'' df_names \<noteq> df_names"
    unfolding s by (simp add: df_names_def)
  from a s d show ?thesis by (simp add: gdf_all_untouched)
qed

subsection \<open>The rows of the output\<close>




section \<open>Properties: deduplication\<close>

lemma filter_same_key:
  "distinct (map f xs) \<Longrightarrow> x \<in> set xs \<Longrightarrow> filter (\<lambda>y. f y = f x) xs = [x]"
proof (induction xs)
  case Nil
  then show ?case by simp
next
  case (Cons a xs)
  show ?case
  proof (cases "x = a")
    case True
    from Cons.prems(1) have "f a \<notin> f ` set xs" by simp
    then have "\<forall>y \<in> set xs. f y \<noteq> f a" by (metis imageI)
    then have "filter (\<lambda>y. f y = f a) xs = []" by (simp add: filter_empty_conv)
    with True show ?thesis by simp
  next
    case False
    with Cons.prems have x: "x \<in> set xs" and d: "distinct (map f xs)" and "f a \<notin> f ` set xs"
      by auto
    then have "f a \<noteq> f x" by auto
    with Cons.IH[OF d x] show ?thesis by simp
  qed
qed

lemma column_select_cols: "c \<in> set cs \<Longrightarrow> column (select_cols f cs) c = column f c"
  by (simp add: column_def select_cols_def cell_of_map)

lemma group_rows_select_cols:
  "key \<in> set cs \<Longrightarrow>
   group_rows cs key (rows (select_cols f cs)) k =
   map (\<lambda>r. map (cell_of (columns f) r) cs) (group_rows (columns f) key (rows f) k)"
  by (simp add: group_rows_def select_cols_def filter_map o_def cell_of_map)

lemma group_keys_not_missing: "k \<in> set (group_keys ks) \<Longrightarrow> \<not> isna k"
  by (auto simp: set_group_keys isna_key_canon)

lemma group_rows_not_Nil:
  "k \<in> set (group_keys (column f key)) \<Longrightarrow> group_rows (columns f) key (rows f) k \<noteq> []"
  by (auto simp: set_group_keys column_def group_rows_def filter_empty_conv)

lemma group_rows_key:
  "r \<in> set (group_rows cols key rs k) \<Longrightarrow> key_canon (cell_of cols r key) = k"
  by (simp add: group_rows_def)

lemma group_key_val:
  assumes "k \<in> set (group_keys (column f key))"
  shows "key_canon (first_valid (map (\<lambda>r. cell_of (columns f) r key)
           (group_rows (columns f) key (rows f) k))) = k"
proof -
  define ks where "ks = map (\<lambda>r. cell_of (columns f) r key) (group_rows (columns f) key (rows f) k)"
  from assms have "group_rows (columns f) key (rows f) k \<noteq> []" by (rule group_rows_not_Nil)
  then have ne: "ks \<noteq> []" by (simp add: ks_def)
  from assms have nk: "\<not> isna k" by (rule group_keys_not_missing)
  have all: "\<forall>c \<in> set ks. key_canon c = k" by (auto simp: ks_def dest: group_rows_key)
  then have "\<forall>c \<in> set ks. \<not> isna c" using nk isna_key_canon by metis
  with ne have "first_valid ks = hd ks" by (intro first_valid_hd)
  moreover from ne have "hd ks \<in> set ks" by (rule hd_in_set)
  ultimately have "key_canon (first_valid ks) = k" using all by metis
  then show ?thesis by (simp only: ks_def)
qed

lemma unary_union_single: "unary_union [c] = geom_of c"
  by (simp add: unary_union_def)

lemma dissolve_columns:
  "columns (dissolve key tmp) = key # ''geometry'' # filter (\<lambda>c. c \<noteq> key \<and> c \<noteq> ''geometry'') (columns tmp)"
  by (simp add: dissolve_def Let_def)

lemma dissolve_row:
  assumes "r' \<in> set (rows (dissolve key tmp))"
  obtains k where "k \<in> set (group_keys (column tmp key))"
    and "cell_of (columns (dissolve key tmp)) r' key =
           first_valid (map (\<lambda>r. cell_of (columns tmp) r key) (group_rows (columns tmp) key (rows tmp) k))"
    and "key \<noteq> ''geometry'' \<Longrightarrow> cell_of (columns (dissolve key tmp)) r' ''geometry'' =
           GeomV (unary_union (map (\<lambda>r. cell_of (columns tmp) r ''geometry'')
                    (group_rows (columns tmp) key (rows tmp) k)))"
    and "length r' = length (columns (dissolve key tmp))"
proof -
  from assms obtain k where k: "k \<in> set (group_keys (column tmp key))"
    and r': "r' = first_valid (map (\<lambda>r. cell_of (columns tmp) r key) (group_rows (columns tmp) key (rows tmp) k))
                # GeomV (unary_union (map (\<lambda>r. cell_of (columns tmp) r ''geometry'')
                    (group_rows (columns tmp) key (rows tmp) k)))
                # map (\<lambda>c. first_valid (map (\<lambda>r. cell_of (columns tmp) r c)
                    (group_rows (columns tmp) key (rows tmp) k)))
                    (filter (\<lambda>c. c \<noteq> key \<and> c \<noteq> ''geometry'') (columns tmp))"
    by (auto simp: dissolve_def Let_def)
  show thesis
  proof (rule that[OF k])
    show "cell_of (columns (dissolve key tmp)) r' key =
           first_valid (map (\<lambda>r. cell_of (columns tmp) r key) (group_rows (columns tmp) key (rows tmp) k))"
      unfolding dissolve_columns r' by (rule cell_of_head)
    show "cell_of (columns (dissolve key tmp)) r' ''geometry'' =
           GeomV (unary_union (map (\<lambda>r. cell_of (columns tmp) r ''geometry'')
                    (group_rows (columns tmp) key (rows tmp) k)))" if "key \<noteq> ''geometry''"
      unfolding dissolve_columns r' using that by (simp add: cell_of_tail cell_of_head)
    show "length r' = length (columns (dissolve key tmp))"
      unfolding dissolve_columns r' by simp
  qed
qed

lemma dissolve_keys:
  "map key_canon (column (dissolve key tmp) key) = group_keys (column tmp key)"
proof -
  have "map key_canon (column (dissolve key tmp) key) =
        map (\<lambda>k. key_canon (first_valid (map (\<lambda>r. cell_of (columns tmp) r key)
               (group_rows (columns tmp) key (rows tmp) k)))) (group_keys (column tmp key))"
    by (simp add: column_def dissolve_def Let_def cell_of_head o_def)
  also have "\<dots> = map (\<lambda>k. k) (group_keys (column tmp key))"
    by (rule map_cong) (simp_all add: group_key_val)
  finally show ?thesis by simp
qed

lemma rows_kept_one_per_key:
  assumes "\<not> any_duplicated (column view key)" "r' \<in> set (rows view)"
  shows "group_rows (columns view) key (rows view) (key_canon (cell_of (columns view) r' key)) = [r']"
proof -
  from assms(1) have "distinct (map (\<lambda>r. key_canon (cell_of (columns view) r key)) (rows view))"
    by (simp add: any_duplicated_def column_def o_def)
  from filter_same_key[OF this assms(2)] show ?thesis by (simp add: group_rows_def)
qed

lemma dissolve_select_union:
  assumes cs: "key \<in> set cs" "''geometry'' \<in> set cs" and kg: "key \<noteq> ''geometry''"
      and r': "r' \<in> set (rows (dissolve key (select_cols view cs)))"
  shows "cell_of (columns (dissolve key (select_cols view cs))) r' ''geometry'' =
         GeomV (unary_union (map (\<lambda>r. cell_of (columns view) r ''geometry'')
           (group_rows (columns view) key (rows view)
              (key_canon (cell_of (columns (dissolve key (select_cols view cs))) r' key)))))"
proof -
  let ?tmp = "select_cols view cs"
  have ct: "columns ?tmp = cs" by (simp add: select_cols_def)
  from r' obtain k where k: "k \<in> set (group_keys (column ?tmp key))"
    and kc: "cell_of (columns (dissolve key ?tmp)) r' key =
           first_valid (map (\<lambda>r. cell_of (columns ?tmp) r key) (group_rows (columns ?tmp) key (rows ?tmp) k))"
    and g: "cell_of (columns (dissolve key ?tmp)) r' ''geometry'' =
           GeomV (unary_union (map (\<lambda>r. cell_of (columns ?tmp) r ''geometry'')
                    (group_rows (columns ?tmp) key (rows ?tmp) k)))"
    using kg by (auto elim: dissolve_row)
  have kk: "key_canon (cell_of (columns (dissolve key ?tmp)) r' key) = k"
    unfolding kc using k by (rule group_key_val)
  have "map (\<lambda>r. cell_of (columns ?tmp) r ''geometry'') (group_rows (columns ?tmp) key (rows ?tmp) k)
      = map (\<lambda>r. cell_of (columns view) r ''geometry'') (group_rows (columns view) key (rows view) k)"
    unfolding ct group_rows_select_cols[OF cs(1)] by (simp add: o_def cell_of_map[OF cs(2)])
  with g kk show ?thesis by simp
qed

lemma rectangular_dissolve: "rectangular (dissolve key tmp)"
  unfolding rectangular_def by (auto elim: dissolve_row)

lemma set_column_new_rows:
  assumes "c \<notin> set (columns d)" "length vs = length (rows d)"
  shows "columns (set_column d c vs) = columns d @ [c]"
    and "rows (set_column d c vs) = map (\<lambda>(r, v). r @ [v]) (zip (rows d) vs)"
  using assms by (simp_all add: set_column_def)

lemma set_column_new_cells:
  assumes new: "c \<notin> set (columns d)" and len: "length vs = length (rows d)"
      and rect: "rectangular d" and r'': "r'' \<in> set (rows (set_column d c vs))"
  obtains r' where "r' \<in> set (rows d)"
    and "\<And>a. a \<in> set (columns d) \<Longrightarrow> cell_of (columns (set_column d c vs)) r'' a = cell_of (columns d) r' a"
proof -
  from r'' obtain r' v where rv: "(r', v) \<in> set (zip (rows d) vs)" and e: "r'' = r' @ [v]"
    unfolding set_column_new_rows(2)[OF new len] by auto
  from rv have m: "r' \<in> set (rows d)" by (rule set_zip_leftD)
  with rect have l: "length r' = length (columns d)" by (simp add: rectangular_def)
  show thesis
  proof (rule that[OF m])
    fix a assume "a \<in> set (columns d)"
    with l show "cell_of (columns (set_column d c vs)) r'' a = cell_of (columns d) r' a"
      unfolding set_column_new_rows(1)[OF new len] e by (rule cell_of_append)
  qed
qed

lemma set_column_new_column:
  assumes new: "c \<notin> set (columns d)" and len: "length vs = length (rows d)"
      and rect: "rectangular d" and a: "a \<in> set (columns d)"
  shows "column (set_column d c vs) a = column d a"
proof -
  have cell: "cell_of (columns d @ [c]) (fst p @ [snd p]) a = cell_of (columns d) (fst p) a"
    if "p \<in> set (zip (rows d) vs)" for p
  proof -
    from that have "(fst p, snd p) \<in> set (zip (rows d) vs)" by simp
    then have "fst p \<in> set (rows d)" by (rule set_zip_leftD)
    with rect have "length (fst p) = length (columns d)" by (simp add: rectangular_def)
    then show ?thesis using a by (rule cell_of_append)
  qed
  have "map (\<lambda>r. cell_of (columns d @ [c]) r a) (map (\<lambda>(r, v). r @ [v]) (zip (rows d) vs))
      = map (\<lambda>p. cell_of (columns d) (fst p) a) (zip (rows d) vs)"
    using cell by (simp add: split_def)
  also have "\<dots> = map (\<lambda>r. cell_of (columns d) r a) (map fst (zip (rows d) vs))"
    by (simp add: o_def)
  also have "map fst (zip (rows d) vs) = rows d" using len by simp
  finally show ?thesis
    by (simp add: column_def set_column_new_rows[OF new len])
qed

lemma manual_union_row:
  assumes m: "manual_union key view = Inr out" and r': "r' \<in> set (rows out)"
      and key: "key \<in> set (columns view)" and kg: "key \<noteq> ''geometry''"
      and rect: "rectangular view"
  obtains k where "k \<in> set (group_keys (column view key))"
    and "columns out = columns view"
    and "cell_of (columns out) r' key =
           first_valid (map (\<lambda>r. cell_of (columns view) r key)
             (group_rows (columns view) key (rows view) k))"
    and "cell_of (columns out) r' ''geometry'' =
           GeomV (unary_union (map (\<lambda>r. cell_of (columns view) r ''geometry'')
             (group_rows (columns view) key (rows view) k)))"
proof -
  let ?cols = "columns view"
  define row where "row = (\<lambda>k.
      set_cell ?cols
        (set_cell ?cols (case group_rows ?cols key (rows view) k of [] \<Rightarrow> [] | r # _ \<Rightarrow> r) ''geometry''
           (GeomV (unary_union (map (\<lambda>r. cell_of ?cols r ''geometry'') (group_rows ?cols key (rows view) k)))))
        key (first_valid (map (\<lambda>r. cell_of ?cols r key) (group_rows ?cols key (rows view) k))))"
  from m have geo: "''geometry'' \<in> set ?cols"
    by (auto simp: manual_union_def split: if_splits)
  from m geo have out: "out = \<lparr>columns = (if map row (group_keys (column view key)) = [] then [] else ?cols),
                              rows = map row (group_keys (column view key))\<rparr>"
    by (simp add: manual_union_def Let_def row_def)
  from r' out obtain k where k: "k \<in> set (group_keys (column view key))" and rk: "r' = row k"
    by auto
  from k out have co: "columns out = ?cols" by auto
  from k have "group_rows ?cols key (rows view) k \<noteq> []" by (rule group_rows_not_Nil)
  then obtain r0 rs where grp: "group_rows ?cols key (rows view) k = r0 # rs"
    by (cases "group_rows ?cols key (rows view) k") auto
  then have "r0 \<in> set (group_rows ?cols key (rows view) k)" by simp
  then have "r0 \<in> set (rows view)" by (simp add: group_rows_def)
  with rect have l0: "length r0 = length ?cols" by (simp add: rectangular_def)
  define inner where "inner = set_cell ?cols r0 ''geometry''
      (GeomV (unary_union (map (\<lambda>r. cell_of ?cols r ''geometry'') (group_rows ?cols key (rows view) k))))"
  from l0 have li: "length inner = length ?cols" by (simp add: inner_def length_set_cell)
  have rr: "r' = set_cell ?cols inner key
      (first_valid (map (\<lambda>r. cell_of ?cols r key) (group_rows ?cols key (rows view) k)))"
    unfolding rk row_def inner_def by (simp add: grp)
  show thesis
  proof (rule that[OF k co])
    show "cell_of (columns out) r' key =
           first_valid (map (\<lambda>r. cell_of ?cols r key) (group_rows ?cols key (rows view) k))"
      unfolding co rr by (simp add: cell_of_set_cell[OF li key])
    have "cell_of ?cols r' ''geometry'' = cell_of ?cols inner ''geometry''"
      unfolding rr using kg by (simp add: cell_of_set_cell[OF li key])
    also have "\<dots> = GeomV (unary_union (map (\<lambda>r. cell_of ?cols r ''geometry'')
             (group_rows ?cols key (rows view) k)))"
      unfolding inner_def by (simp add: cell_of_set_cell[OF l0 geo])
    finally show "cell_of (columns out) r' ''geometry'' =
           GeomV (unary_union (map (\<lambda>r. cell_of ?cols r ''geometry'')
             (group_rows ?cols key (rows view) k)))"
      unfolding co .
  qed
qed

lemma manual_union_keys:
  assumes m: "manual_union key view = Inr out"
      and key: "key \<in> set (columns view)" and kg: "key \<noteq> ''geometry''"
      and rect: "rectangular view"
  shows "map key_canon (column out key) = group_keys (column view key)"
proof -
  let ?cols = "columns view"
  define row where "row = (\<lambda>k.
      set_cell ?cols
        (set_cell ?cols (case group_rows ?cols key (rows view) k of [] \<Rightarrow> [] | r # _ \<Rightarrow> r) ''geometry''
           (GeomV (unary_union (map (\<lambda>r. cell_of ?cols r ''geometry'') (group_rows ?cols key (rows view) k)))))
        key (first_valid (map (\<lambda>r. cell_of ?cols r key) (group_rows ?cols key (rows view) k))))"
  from m have geo: "''geometry'' \<in> set ?cols"
    by (auto simp: manual_union_def split: if_splits)
  from m geo have ro: "rows out = map row (group_keys (column view key))"
    by (auto simp: manual_union_def Let_def row_def)
  have "key_canon (cell_of (columns out) (row k) key) = k"
    if k: "k \<in> set (group_keys (column view key))" for k
  proof -
    from k ro have "row k \<in> set (rows out)" by simp
    from manual_union_row[OF m this key kg rect] obtain k' where
      k': "k' \<in> set (group_keys (column view key))"
      and c: "cell_of (columns out) (row k) key =
           first_valid (map (\<lambda>r. cell_of ?cols r key) (group_rows ?cols key (rows view) k'))"
      by blast
    have 1: "key_canon (cell_of (columns out) (row k) key) = k'"
      unfolding c using k' by (rule group_key_val)
    from k have "group_rows ?cols key (rows view) k \<noteq> []" by (rule group_rows_not_Nil)
    then obtain r0 rs where grp: "group_rows ?cols key (rows view) k = r0 # rs"
      by (cases "group_rows ?cols key (rows view) k") auto
    then have "r0 \<in> set (group_rows ?cols key (rows view) k)" by simp
    then have "r0 \<in> set (rows view)" by (simp add: group_rows_def)
    with rect have l0: "length r0 = length ?cols" by (simp add: rectangular_def)
    from k ro have co: "columns out = ?cols" using m geo
      by (auto simp: manual_union_def Let_def split: if_splits)
    have "cell_of ?cols (row k) key =
        first_valid (map (\<lambda>r. cell_of ?cols r key) (group_rows ?cols key (rows view) k))"
      unfolding row_def grp[symmetric]
      by (simp add: grp cell_of_set_cell[OF _ key] length_set_cell[OF l0])
    then have "key_canon (cell_of (columns out) (row k) key) = k"
      unfolding co using group_key_val[OF k] by simp
    then show ?thesis .
  qed
  then have "map (\<lambda>k. key_canon (cell_of (columns out) (row k) key)) (group_keys (column view key))
      = map (\<lambda>k. k) (group_keys (column view key))"
    by (intro map_cong) simp_all
  then show ?thesis by (simp add: column_def ro o_def)
qed

lemma dissolved_one_row_per_key:
  assumes cs: "key \<in> set cs" "''geometry'' \<in> set cs" and kg: "key \<noteq> ''geometry''"
      and out: "out = dissolve key (select_cols view cs) \<or>
                (c \<notin> set (columns (dissolve key (select_cols view cs))) \<and>
                 out = set_column (dissolve key (select_cols view cs)) c
                         (replicate (length (rows (dissolve key (select_cols view cs)))) v))"
  shows "map key_canon (column out key) = group_keys (column view key) \<and>
         (\<forall>r' \<in> set (rows out). geom_of (cell_of (columns out) r' ''geometry'') =
            unary_union (map (\<lambda>r. cell_of (columns view) r ''geometry'')
              (group_rows (columns view) key (rows view) (key_canon (cell_of (columns out) r' key)))))"
proof -
  define d where "d = dissolve key (select_cols view cs)"
  have dist: "map key_canon (column d key) = group_keys (column view key)"
    unfolding d_def using cs(1) by (simp add: dissolve_keys column_select_cols)
  have un: "geom_of (cell_of (columns d) r' ''geometry'') =
            unary_union (map (\<lambda>r. cell_of (columns view) r ''geometry'')
              (group_rows (columns view) key (rows view) (key_canon (cell_of (columns d) r' key))))"
    if "r' \<in> set (rows d)" for r'
    using dissolve_select_union[OF cs kg, of r' view] that by (simp add: d_def geom_of_def)
  from out consider (plain) "out = d"
    | (added) "c \<notin> set (columns d)" "out = set_column d c (replicate (length (rows d)) v)"
    by (auto simp: d_def)
  then show ?thesis
  proof cases
    case plain
    with dist un show ?thesis by simp
  next
    case added
    have rect: "rectangular d" unfolding d_def by (rule rectangular_dissolve)
    have len: "length (replicate (length (rows d)) v) = length (rows d)" by simp
    have kd: "key \<in> set (columns d)" "''geometry'' \<in> set (columns d)"
      by (simp_all add: d_def dissolve_columns)
    have "column out key = column d key"
      unfolding added(2) using added(1) len rect kd(1) by (rule set_column_new_column)
    with dist have 1: "map key_canon (column out key) = group_keys (column view key)" by simp
    have 2: "geom_of (cell_of (columns out) r'' ''geometry'') =
            unary_union (map (\<lambda>r. cell_of (columns view) r ''geometry'')
              (group_rows (columns view) key (rows view) (key_canon (cell_of (columns out) r'' key))))"
      if "r'' \<in> set (rows out)" for r''
    proof -
      from that have "r'' \<in> set (rows (set_column d c (replicate (length (rows d)) v)))"
        by (simp add: added(2))
      from set_column_new_cells[OF added(1) len rect this] obtain r' where
        r': "r' \<in> set (rows d)" and
        same: "\<And>a. a \<in> set (columns d) \<Longrightarrow>
           cell_of (columns (set_column d c (replicate (length (rows d)) v))) r'' a = cell_of (columns d) r' a"
        by blast
      from same[OF kd(1)] same[OF kd(2)] un[OF r'] show ?thesis by (simp add: added(2))
    qed
    from 1 2 show ?thesis by blast
  qed
qed

lemma dedup_geometry_result:
  assumes d: "dedup_geometry E key year view = Inr out"
      and key: "key \<in> set (columns view)" and kg: "key \<noteq> ''geometry''"
      and rect: "rectangular view"
  shows "distinct (map key_canon (column out key)) \<and>
         card (set (map key_canon (column out key))) = length (rows out) \<and>
         (\<forall>r' \<in> set (rows out). geom_of (cell_of (columns out) r' ''geometry'') =
            unary_union (map (\<lambda>r. cell_of (columns view) r ''geometry'')
              (group_rows (columns view) key (rows view) (key_canon (cell_of (columns out) r' key))))) \<and>
         (\<forall>r \<in> set (rows view). \<not> isna (cell_of (columns view) r key) \<longrightarrow>
            key_canon (cell_of (columns view) r key) \<in> set (map key_canon (column out key)))"
proof -
  define cs where "cs = [key, ''geometry''] @ (if ''year'' \<in> set (columns view) then [''year''] else [])"
  have gk: "distinct (map key_canon (column out key)) \<and>
         (\<forall>r \<in> set (rows view). \<not> isna (cell_of (columns view) r key) \<longrightarrow>
            key_canon (cell_of (columns view) r key) \<in> set (map key_canon (column out key)))"
    if "map key_canon (column out key) = group_keys (column view key)"
    unfolding that by (auto simp: distinct_group_keys set_group_keys column_def)
  have main: "(distinct (map key_canon (column out key)) \<and>
         (\<forall>r \<in> set (rows view). \<not> isna (cell_of (columns view) r key) \<longrightarrow>
            key_canon (cell_of (columns view) r key) \<in> set (map key_canon (column out key)))) \<and>
         (\<forall>r' \<in> set (rows out). geom_of (cell_of (columns out) r' ''geometry'') =
            unary_union (map (\<lambda>r. cell_of (columns view) r ''geometry'')
              (group_rows (columns view) key (rows view) (key_canon (cell_of (columns out) r' key)))))"
  proof (cases "any_duplicated (column view key)")
    case False
    with d have o: "out = view" by (simp add: dedup_geometry_def)
    from False have "distinct (map key_canon (column view key))" by (simp add: any_duplicated_def)
    moreover have "\<forall>r \<in> set (rows view). \<not> isna (cell_of (columns view) r key) \<longrightarrow>
            key_canon (cell_of (columns view) r key) \<in> set (map key_canon (column view key))"
      by (simp add: column_def)
    moreover have "geom_of (cell_of (columns view) r' ''geometry'') =
            unary_union (map (\<lambda>r. cell_of (columns view) r ''geometry'')
              (group_rows (columns view) key (rows view) (key_canon (cell_of (columns view) r' key))))"
      if "r' \<in> set (rows view)" for r'
      unfolding rows_kept_one_per_key[OF False that] by (simp add: unary_union_single)
    ultimately show ?thesis unfolding o by blast
  next
    case True
    show ?thesis
    proof (cases "set cs \<subseteq> set (columns view) \<and> \<not> dissolve_raises E key (rows (select_cols view cs))")
      case yes: True
      have k: "key \<in> set cs" "''geometry'' \<in> set cs" by (simp_all add: cs_def)
      from d True yes have "out = dissolve key (select_cols view cs) \<or>
                (''year'' \<notin> set (columns (dissolve key (select_cols view cs))) \<and>
                 out = set_column (dissolve key (select_cols view cs)) ''year''
                         (replicate (length (rows (dissolve key (select_cols view cs)))) (IntV year)))"
        by (auto simp: dedup_geometry_def Let_def cs_def split: if_splits)
      from dissolved_one_row_per_key[OF k kg this] gk show ?thesis by blast
    next
      case no: False
      with d True have m: "manual_union key view = Inr out"
        by (auto simp: dedup_geometry_def Let_def cs_def split: if_splits)
      have "map key_canon (column out key) = group_keys (column view key)"
        using m key kg rect by (rule manual_union_keys)
      note 1 = gk[OF this]
      have 2: "geom_of (cell_of (columns out) r' ''geometry'') =
            unary_union (map (\<lambda>r. cell_of (columns view) r ''geometry'')
              (group_rows (columns view) key (rows view) (key_canon (cell_of (columns out) r' key))))"
        if "r' \<in> set (rows out)" for r'
      proof -
        from manual_union_row[OF m that key kg rect] obtain k where
          k: "k \<in> set (group_keys (column view key))"
          and kc: "cell_of (columns out) r' key =
             first_valid (map (\<lambda>r. cell_of (columns view) r key)
               (group_rows (columns view) key (rows view) k))"
          and g: "cell_of (columns out) r' ''geometry'' =
             GeomV (unary_union (map (\<lambda>r. cell_of (columns view) r ''geometry'')
               (group_rows (columns view) key (rows view) k)))"
          by blast
        have "key_canon (cell_of (columns out) r' key) = k"
          unfolding kc using k by (rule group_key_val)
        with g show ?thesis by (simp add: geom_of_def)
      qed
      from 1 2 show ?thesis by blast
    qed
  qed
  then have "distinct (map key_canon (column out key))" by blast
  then have "card (set (map key_canon (column out key))) = length (map key_canon (column out key))"
    by (simp only: distinct_card)
  then have "card (set (map key_canon (column out key))) = length (rows out)"
    by (simp add: column_def)
  with main show ?thesis by blast
qed

text \<open>
  Claim C2 (deduplication). On a frame with its geometry column the deduplication
  step returns, and the keys of the rows it returns are pairwise different, so there are as many distinct keys as rows,
  the shape of every row is the union of the shapes of the input rows that have its
  key, and every key of the input that is not missing is the key of a row. This holds
  where no key was duplicated (the frame is returned as it is), after
  the dissolve, and after the manual union that runs when the dissolve raises. The key
  is any key column other than \<^verbatim>\<open>geometry\<close> (\<^verbatim>\<open>geo_key\<close> on the preferred path); keys are
  compared as pandas compares them (\<open>key_canon\<close>).
\<close>

theorem dedup_geometry_one_row_per_key:
  assumes geo: "''geometry'' \<in> set (columns view)"
      and key: "key \<in> set (columns view)" and kg: "key \<noteq> ''geometry''"
      and rect: "rectangular view"
  shows "\<exists>out. dedup_geometry E key year view = Inr out \<and>
           distinct (map key_canon (column out key)) \<and>
           card (set (map key_canon (column out key))) = length (rows out) \<and>
           (\<forall>r' \<in> set (rows out). geom_of (cell_of (columns out) r' ''geometry'') =
              unary_union (map (\<lambda>r. cell_of (columns view) r ''geometry'')
                (group_rows (columns view) key (rows view) (key_canon (cell_of (columns out) r' key))))) \<and>
           (\<forall>r \<in> set (rows view). \<not> isna (cell_of (columns view) r key) \<longrightarrow>
              key_canon (cell_of (columns view) r key) \<in> set (map key_canon (column out key)))"
proof -
  from dedup_geometry_returns[OF geo] obtain out where o: "dedup_geometry E key year view = Inr out"
    by blast
  from dedup_geometry_result[OF o key kg rect] o show ?thesis by blast
qed

text \<open>
  The theorem at the three shapes of 2015 of the scenario, where the library dissolves
  and where it raises and the manual union runs: two rows remain, one per key, and the
  row keyed \<^verbatim>\<open>2015__42\<close> has the union of the two shapes.
\<close>

theorem dedup_geometry_one_row_per_key_witness:
  "dedup_geometry calm_env ''geo_key'' 2015 (year_rows gdf_2015 2015) =
     Inr \<lparr>columns = [''geo_key'', ''geometry'', ''year''],
          rows = [[StrV ''2015__42'', GeomV {1, 2, 3}, IntV 2015],
                  [StrV ''2015__7'', GeomV {5}, IntV 2015]]\<rparr> \<and>
   dedup_geometry raising_env ''geo_key'' 2015 (year_rows gdf_2015 2015) =
     Inr \<lparr>columns = [''year'', ''geo_key'', ''geometry''],
          rows = [[IntV 2015, StrV ''2015__42'', GeomV {1, 2, 3}],
                  [IntV 2015, StrV ''2015__7'', GeomV {5}]]\<rparr> \<and>
   distinct (map key_canon (column
     \<lparr>columns = [''geo_key'', ''geometry'', ''year''],
      rows = [[StrV ''2015__42'', GeomV {1, 2, 3}, IntV 2015],
              [StrV ''2015__7'', GeomV {5}, IntV 2015]]\<rparr> ''geo_key'')) \<and>
   card (set (map key_canon (column
     \<lparr>columns = [''year'', ''geo_key'', ''geometry''],
      rows = [[IntV 2015, StrV ''2015__42'', GeomV {1, 2, 3}],
              [IntV 2015, StrV ''2015__7'', GeomV {5}]]\<rparr> ''geo_key''))) = 2"
proof -
  have v: "year_rows gdf_2015 2015 =
     \<lparr>columns = [''year'', ''geo_key'', ''geometry''],
      rows = [[IntV 2015, StrV ''2015__42'', GeomV {1, 2}],
              [IntV 2015, StrV ''2015__7'', GeomV {5}],
              [IntV 2015, StrV ''2015__42'', GeomV {2, 3}]]\<rparr>"
    by (simp add: gdf_2015_def year_rows_def rows_equal_def filter_rows_def cell_of_def eq_int_def)
  have k: "''geo_key'' \<in> set (columns (year_rows gdf_2015 2015))" "''geo_key'' \<noteq> ''geometry''"
    "rectangular (year_rows gdf_2015 2015)"
    unfolding v by (simp_all add: rectangular_def)
  have a: "dedup_geometry calm_env ''geo_key'' 2015 (year_rows gdf_2015 2015) =
     Inr \<lparr>columns = [''geo_key'', ''geometry'', ''year''],
          rows = [[StrV ''2015__42'', GeomV {1, 2, 3}, IntV 2015],
                  [StrV ''2015__7'', GeomV {5}, IntV 2015]]\<rparr>"
    unfolding v
    by (simp add: calm_env_def cell_of_def column_def select_cols_def
        dedup_geometry_def any_duplicated_def key_canon_def dissolve_def group_keys_def
        group_rows_def sort_by_def cell_lt_def unary_union_def geom_of_def first_valid_def
        isna_def insert_commute)
  have b: "dedup_geometry raising_env ''geo_key'' 2015 (year_rows gdf_2015 2015) =
     Inr \<lparr>columns = [''year'', ''geo_key'', ''geometry''],
          rows = [[IntV 2015, StrV ''2015__42'', GeomV {1, 2, 3}],
                  [IntV 2015, StrV ''2015__7'', GeomV {5}]]\<rparr>"
    unfolding v
    by (simp add: raising_env_def cell_of_def column_def select_cols_def set_cell_def
        dedup_geometry_def any_duplicated_def key_canon_def manual_union_def group_keys_def
        group_rows_def sort_by_def cell_lt_def unary_union_def geom_of_def first_valid_def
        isna_def insert_commute)
  have g: "''geometry'' \<in> set (columns (year_rows gdf_2015 2015))"
    unfolding v by simp
  from dedup_geometry_one_row_per_key[OF g k, of calm_env 2015] a
  have 1: "distinct (map key_canon (column
     \<lparr>columns = [''geo_key'', ''geometry'', ''year''],
      rows = [[StrV ''2015__42'', GeomV {1, 2, 3}, IntV 2015],
              [StrV ''2015__7'', GeomV {5}, IntV 2015]]\<rparr> ''geo_key''))"
    by auto
  from dedup_geometry_one_row_per_key[OF g k, of raising_env 2015] b
  have 2: "card (set (map key_canon (column
     \<lparr>columns = [''year'', ''geo_key'', ''geometry''],
      rows = [[IntV 2015, StrV ''2015__42'', GeomV {1, 2, 3}],
              [IntV 2015, StrV ''2015__7'', GeomV {5}]]\<rparr> ''geo_key''))) = 2"
    by auto
  from a b 1 2 show ?thesis by blast
qed

section \<open>Properties: the rows of the join\<close>









section \<open>Properties: the municipal join\<close>

lemma filter_key_at_most_one:
  "distinct (map f xs) \<Longrightarrow> length (filter (\<lambda>x. f x = k) xs) \<le> 1"
proof (induction xs)
  case Nil
  show ?case by simp
next
  case (Cons a xs)
  show ?case
  proof (cases "f a = k")
    case True
    with Cons.prems have "k \<notin> f ` set xs" by auto
    then have "\<forall>x \<in> set xs. f x \<noteq> k" by (metis imageI)
    then have "filter (\<lambda>x. f x = k) xs = []" by (simp add: filter_empty_conv)
    with True show ?thesis by simp
  next
    case False
    with Cons show ?thesis by simp
  qed
qed

lemma matches_at_most_one:
  "distinct (map (key_of on (columns R)) (rows R)) \<Longrightarrow> length (matches_of on L R l) \<le> 1"
  unfolding matches_of_def by (rule filter_key_at_most_one)

lemma joined_rows_single:
  assumes "length (matches_of on L R l) \<le> 1"
  shows "joined_rows on L R l =
         [l @ (case matches_of on L R l of
                 [] \<Rightarrow> replicate (length (filter (\<lambda>c. c \<notin> set on) (columns R))) (Null NaN)
               | m # ms \<Rightarrow> right_part on (columns R) m)]"
proof (cases "matches_of on L R l")
  case Nil
  then show ?thesis by (simp add: joined_rows_def)
next
  case (Cons m ms)
  with assms have "ms = []" by simp
  with Cons show ?thesis by (simp add: joined_rows_def)
qed

lemma concat_map_single: "(\<And>x. x \<in> set xs \<Longrightarrow> f x = [g x]) \<Longrightarrow> concat (map f xs) = map g xs"
  by (induction xs) simp_all

lemma merge_one_to_one_Inr:
  assumes "merge_one_to_one on L R = Inr M"
  shows "distinct (map (key_of on (columns L)) (rows L))"
    and "distinct (map (key_of on (columns R)) (rows R))"
    and "rows M = map (\<lambda>l. l @ (case matches_of on L R l of
                 [] \<Rightarrow> replicate (length (filter (\<lambda>c. c \<notin> set on) (columns R))) (Null NaN)
               | m # ms \<Rightarrow> right_part on (columns R) m)) (rows L)"
proof -
  from assms have dl: "distinct (map (key_of on (columns L)) (rows L))"
    and dr: "distinct (map (key_of on (columns R)) (rows R))"
    and m: "merge_left on L R = Inr M"
    by (auto simp: merge_one_to_one_def split: option.splits if_splits)
  show "distinct (map (key_of on (columns L)) (rows L))" by (rule dl)
  show "distinct (map (key_of on (columns R)) (rows R))" by (rule dr)
  have "rows M = concat (map (joined_rows on L R) (rows L))"
    using m by (simp add: merge_left_Inr)
  also have "\<dots> = map (\<lambda>l. l @ (case matches_of on L R l of
                 [] \<Rightarrow> replicate (length (filter (\<lambda>c. c \<notin> set on) (columns R))) (Null NaN)
               | m # ms \<Rightarrow> right_part on (columns R) m)) (rows L)"
    by (rule concat_map_single) (rule joined_rows_single, rule matches_at_most_one, rule dr)
  finally show "rows M = map (\<lambda>l. l @ (case matches_of on L R l of
                 [] \<Rightarrow> replicate (length (filter (\<lambda>c. c \<notin> set on) (columns R))) (Null NaN)
               | m # ms \<Rightarrow> right_part on (columns R) m)) (rows L)" .
qed

lemma merge_one_to_one_duplicates:
  assumes "\<forall>k \<in> set on. k \<in> set (columns L) \<and> k \<in> set (columns R)"
      and "\<not> distinct (map (key_of on (columns L)) (rows L)) \<or>
           \<not> distinct (map (key_of on (columns R)) (rows R))"
  shows "merge_one_to_one on L R = Inl MergeError"
proof -
  from assms(1) have "List.find (\<lambda>k. k \<notin> set (columns L) \<or> k \<notin> set (columns R)) on = None"
    by (auto simp: find_None_iff)
  with assms(2) show ?thesis by (auto simp: merge_one_to_one_def)
qed

lemma columns_set_column_old: "c \<in> set (columns f) \<Longrightarrow> columns (set_column f c vs) = columns f"
  by (simp add: set_column_def)

lemma columns_aligned_side:
  assumes "''Ward'' \<in> set (columns f)" "''Sub'' \<in> set (columns f)"
  shows "columns (aligned_side E year f) = columns f"
  using assms
  by (simp add: aligned_side_def Let_def columns_set_column_old rows_equal_def filter_rows_def
      dropna_rows_def)

lemma map_zip_snd_unchanged:
  "c \<notin> set cols \<Longrightarrow> length xs = length cols \<Longrightarrow>
   map (\<lambda>(n, y). if n = c then v else y) (zip cols xs) = xs"
proof (induction cols arbitrary: xs)
  case Nil
  then show ?case by simp
next
  case (Cons a cols)
  then obtain y ys where "xs = y # ys" by (cases xs) auto
  with Cons show ?case by auto
qed

lemma set_cell_same:
  "distinct cols \<Longrightarrow> length r = length cols \<Longrightarrow> set_cell cols r c (cell_of cols r c) = r"
proof (induction cols arbitrary: r)
  case Nil
  then show ?case by (simp add: set_cell_def)
next
  case (Cons a cols)
  then obtain x xs where r: "r = x # xs" by (cases r) auto
  with Cons.prems have l: "length xs = length cols" and d: "distinct cols" and a: "a \<notin> set cols"
    by auto
  show ?case
  proof (cases "a = c")
    case True
    with a have "c \<notin> set cols" by simp
    from map_zip_snd_unchanged[OF this l] True r show ?thesis
      by (simp add: set_cell_def cell_of_def)
  next
    case False
    with Cons.IH[OF d l] r show ?thesis by (simp add: set_cell_def cell_of_def)
  qed
qed

lemma set_column_same:
  assumes c: "c \<in> set (columns f)" and d: "distinct (columns f)" and rect: "rectangular f"
      and g: "\<forall>r \<in> set (rows f). g (cell_of (columns f) r c) = cell_of (columns f) r c"
  shows "set_column f c (map g (column f c)) = f"
proof -
  have "map (\<lambda>(r, v). set_cell (columns f) r c v) (zip (rows f) (map g (column f c)))
      = map (\<lambda>r. set_cell (columns f) r c (g (cell_of (columns f) r c))) (rows f)"
    by (simp add: column_def zip_map2 zip_same_conv_map o_def split_def)
  also have "\<dots> = map (\<lambda>r. r) (rows f)"
  proof (rule map_cong[OF refl])
    fix r assume r: "r \<in> set (rows f)"
    with rect have "length r = length (columns f)" by (simp add: rectangular_def)
    from set_cell_same[OF d this, of c] g r
    show "set_cell (columns f) r c (g (cell_of (columns f) r c)) = r" by simp
  qed
  finally show ?thesis using c by (simp add: set_column_def)
qed

lemma aligned_side_integer_keys:
  assumes d: "distinct (columns f)" and rect: "rectangular f"
      and w: "''Ward'' \<in> set (columns f)" and s: "''Sub'' \<in> set (columns f)"
      and int: "\<forall>r \<in> set (rows f). (\<exists>i. cell_of (columns f) r ''Ward'' = IntV i) \<and>
                                   (\<exists>j. cell_of (columns f) r ''Sub'' = IntV j)"
  shows "aligned_side E year f = rows_equal f ''Year'' year"
proof -
  define f0 where "f0 = rows_equal f ''Year'' year"
  have c0: "columns f0 = columns f" and r0: "set (rows f0) \<subseteq> set (rows f)"
    by (auto simp: f0_def rows_equal_def filter_rows_def)
  from c0 r0 d rect w s have p: "distinct (columns f0)" "rectangular f0"
    "''Ward'' \<in> set (columns f0)" "''Sub'' \<in> set (columns f0)"
    by (auto simp: rectangular_def)
  from c0 r0 int have i0: "\<forall>r \<in> set (rows f0). (\<exists>i. cell_of (columns f0) r ''Ward'' = IntV i) \<and>
                                   (\<exists>j. cell_of (columns f0) r ''Sub'' = IntV j)"
    by auto
  have n1: "set_column f0 ''Ward'' (map (to_numeric E) (column f0 ''Ward'')) = f0"
    using p(3,1,2) by (rule set_column_same) (use i0 in \<open>auto simp: to_numeric_def\<close>)
  have n2: "set_column f0 ''Sub'' (map (to_numeric E) (column f0 ''Sub'')) = f0"
    using p(4,1,2) by (rule set_column_same) (use i0 in \<open>auto simp: to_numeric_def\<close>)
  have dn: "dropna_rows [''Ward'', ''Sub''] f0 = f0"
  proof -
    have "filter (\<lambda>r. \<forall>c \<in> set [''Ward'', ''Sub'']. \<not> isna (cell_of (columns f0) r c)) (rows f0) = rows f0"
      unfolding filter_id_conv using i0 by (auto simp: isna_def)
    then show ?thesis by (simp add: dropna_rows_def filter_rows_def)
  qed
  have a1: "set_column f0 ''Ward'' (map astype_int (column f0 ''Ward'')) = f0"
    using p(3,1,2) by (rule set_column_same) (use i0 in \<open>auto simp: astype_int_def\<close>)
  have a2: "set_column f0 ''Sub'' (map astype_int (column f0 ''Sub'')) = f0"
    using p(4,1,2) by (rule set_column_same) (use i0 in \<open>auto simp: astype_int_def\<close>)
  show ?thesis
    unfolding aligned_side_def Let_def f0_def[symmetric] n1 n2 dn a1 a2 ..
qed

lemma key_of_select_cols:
  "set on \<subseteq> set cs \<Longrightarrow>
   map (key_of on cs) (rows (select_cols f cs)) = map (key_of on (columns f)) (rows f)"
  by (auto simp: key_of_def select_cols_def cell_of_map)

text \<open>
  Claim C10 (the municipal merge is one to one). \<open>g_year\<close> and \<open>t_year\<close> are the two
  sides as the source merges them: filtered to the year, with \<^verbatim>\<open>Ward\<close> and \<^verbatim>\<open>Sub\<close> made
  integers and the rows that lack one of them dropped. If two rows of \<open>g_year\<close> or two
  rows of \<open>t_year\<close> have the same (Year, Ward, Sub), the call raises the merge error;
  nothing is dissolved. When the call returns, the output has exactly the rows of
  \<open>g_year\<close>, in order, each followed by the \<^verbatim>\<open>PctVoted\<close> of the one turnout row of its
  key, or by a missing value when there is none. For frames whose \<^verbatim>\<open>Ward\<close> and \<^verbatim>\<open>Sub\<close>
  are integers already, as the loaders leave them, the two sides are the year-filtered
  frames themselves.
\<close>

theorem municipal_join_one_to_one:
  assumes keys: "\<forall>c \<in> set municipal_keys. c \<in> set (columns geom_gdf) \<and> c \<in> set (columns turnout_df)"
      and pct: "''PctVoted'' \<in> set (columns turnout_df)"
      and g: "g_year = aligned_side E year geom_gdf"
      and t: "t_year = aligned_side E year turnout_df"
  shows "(\<not> distinct (map (key_of municipal_keys (columns g_year)) (rows g_year)) \<or>
          \<not> distinct (map (key_of municipal_keys (columns t_year)) (rows t_year))
          \<longrightarrow> prepare_municipal_year_gdf E year geom_gdf turnout_df = Inl MergeError) \<and>
         (\<forall>out. prepare_municipal_year_gdf E year geom_gdf turnout_df = Inr out \<longrightarrow>
            length (rows out) = length (rows g_year) \<and>
            rows out =
              map (\<lambda>l. l @ (case matches_of municipal_keys g_year
                                   (select_cols t_year (municipal_keys @ [''PctVoted''])) l of
                              [] \<Rightarrow> [Null NaN]
                            | m # ms \<Rightarrow> [cell_of (municipal_keys @ [''PctVoted'']) m ''PctVoted'']))
                  (rows g_year) \<and>
            (\<forall>l \<in> set (rows g_year).
               length (matches_of municipal_keys g_year
                         (select_cols t_year (municipal_keys @ [''PctVoted''])) l) \<le> 1)) \<and>
         (distinct (columns geom_gdf) \<and> rectangular geom_gdf \<and>
          (\<forall>r \<in> set (rows geom_gdf). (\<exists>i. cell_of (columns geom_gdf) r ''Ward'' = IntV i) \<and>
                                       (\<exists>j. cell_of (columns geom_gdf) r ''Sub'' = IntV j))
          \<longrightarrow> g_year = rows_equal geom_gdf ''Year'' year) \<and>
         (distinct (columns turnout_df) \<and> rectangular turnout_df \<and>
          (\<forall>r \<in> set (rows turnout_df). (\<exists>i. cell_of (columns turnout_df) r ''Ward'' = IntV i) \<and>
                                       (\<exists>j. cell_of (columns turnout_df) r ''Sub'' = IntV j))
          \<longrightarrow> t_year = rows_equal turnout_df ''Year'' year)"
proof -
  define sel where "sel = select_cols t_year (municipal_keys @ [''PctVoted''])"
  from keys have ws: "''Ward'' \<in> set (columns geom_gdf)" "''Sub'' \<in> set (columns geom_gdf)"
    "''Ward'' \<in> set (columns turnout_df)" "''Sub'' \<in> set (columns turnout_df)"
    by (simp_all add: municipal_keys_def)
  have cg: "columns g_year = columns geom_gdf" and ct: "columns t_year = columns turnout_df"
    unfolding g t using ws by (simp_all add: columns_aligned_side)
  have cs: "columns sel = municipal_keys @ [''PctVoted'']" by (simp add: sel_def select_cols_def)
  from keys have nf: "List.find (\<lambda>c. c \<notin> set (columns geom_gdf) \<or> c \<notin> set (columns turnout_df))
                        municipal_keys = None"
    by (auto simp: find_None_iff)
  have run: "prepare_municipal_year_gdf E year geom_gdf turnout_df =
             merge_one_to_one municipal_keys g_year sel"
    unfolding prepare_municipal_year_gdf_def nf
    using pct by (simp add: Let_def g[symmetric] t[symmetric] ct sel_def)
  have kk: "\<forall>k \<in> set municipal_keys. k \<in> set (columns g_year) \<and> k \<in> set (columns sel)"
    using keys by (simp add: cg cs)
  have sk: "map (key_of municipal_keys (columns sel)) (rows sel) =
            map (key_of municipal_keys (columns t_year)) (rows t_year)"
  proof -
    have "set municipal_keys \<subseteq> set (municipal_keys @ [''PctVoted''])" by auto
    from key_of_select_cols[OF this, of t_year] show ?thesis
      by (simp only: cs sel_def[symmetric])
  qed
  have 1: "prepare_municipal_year_gdf E year geom_gdf turnout_df = Inl MergeError"
    if "\<not> distinct (map (key_of municipal_keys (columns g_year)) (rows g_year)) \<or>
        \<not> distinct (map (key_of municipal_keys (columns t_year)) (rows t_year))"
    unfolding run using kk that by (intro merge_one_to_one_duplicates) (simp_all add: sk)
  have tail: "(case ms of [] \<Rightarrow> replicate (length (filter (\<lambda>c. c \<notin> set municipal_keys) (columns sel))) (Null NaN)
               | m # ms' \<Rightarrow> right_part municipal_keys (columns sel) m)
            = (case ms of [] \<Rightarrow> [Null NaN]
               | m # ms' \<Rightarrow> [cell_of (municipal_keys @ [''PctVoted'']) m ''PctVoted''])"
    if "set ms \<subseteq> set (rows sel)" for ms
  proof (cases ms)
    case Nil
    then show ?thesis by (simp add: cs municipal_keys_def)
  next
    case (Cons m ms')
    with that have "m \<in> set (rows sel)" by simp
    then obtain r where "m = map (cell_of (columns t_year) r) (municipal_keys @ [''PctVoted''])"
      by (auto simp: sel_def select_cols_def)
    with Cons show ?thesis
      by (simp add: cs municipal_keys_def right_part_def cell_of_def)
  qed
  have 2: "length (rows out) = length (rows g_year) \<and>
            rows out =
              map (\<lambda>l. l @ (case matches_of municipal_keys g_year sel l of
                              [] \<Rightarrow> [Null NaN]
                            | m # ms \<Rightarrow> [cell_of (municipal_keys @ [''PctVoted'']) m ''PctVoted'']))
                  (rows g_year) \<and>
            (\<forall>l \<in> set (rows g_year). length (matches_of municipal_keys g_year sel l) \<le> 1)"
    if "prepare_municipal_year_gdf E year geom_gdf turnout_df = Inr out" for out
  proof -
    from that have m: "merge_one_to_one municipal_keys g_year sel = Inr out" by (simp add: run)
    note r = merge_one_to_one_Inr[OF m]
    have sub: "set (matches_of municipal_keys g_year sel l) \<subseteq> set (rows sel)" for l
      by (auto simp: matches_of_def)
    have "rows out = map (\<lambda>l. l @ (case matches_of municipal_keys g_year sel l of
                              [] \<Rightarrow> [Null NaN]
                            | m # ms \<Rightarrow> [cell_of (municipal_keys @ [''PctVoted'']) m ''PctVoted'']))
                  (rows g_year)"
      unfolding r(3) by (simp add: tail[OF sub])
    moreover from this have "length (rows out) = length (rows g_year)" by simp
    moreover have "\<forall>l \<in> set (rows g_year). length (matches_of municipal_keys g_year sel l) \<le> 1"
      using matches_at_most_one[OF r(2)] by blast
    ultimately show ?thesis by blast
  qed
  have 3: "g_year = rows_equal geom_gdf ''Year'' year"
    if "distinct (columns geom_gdf) \<and> rectangular geom_gdf \<and>
          (\<forall>r \<in> set (rows geom_gdf). (\<exists>i. cell_of (columns geom_gdf) r ''Ward'' = IntV i) \<and>
                                       (\<exists>j. cell_of (columns geom_gdf) r ''Sub'' = IntV j))"
    unfolding g using that ws by (intro aligned_side_integer_keys) simp_all
  have 4: "t_year = rows_equal turnout_df ''Year'' year"
    if "distinct (columns turnout_df) \<and> rectangular turnout_df \<and>
          (\<forall>r \<in> set (rows turnout_df). (\<exists>i. cell_of (columns turnout_df) r ''Ward'' = IntV i) \<and>
                                       (\<exists>j. cell_of (columns turnout_df) r ''Sub'' = IntV j))"
    unfolding t using that ws by (intro aligned_side_integer_keys) simp_all
  from 1 2 3 4 show ?thesis unfolding sel_def by blast
qed

lemma mun_sides:
  "aligned_side E 2018 mun_geom =
     \<lparr>columns = [''Year'', ''Ward'', ''Sub'', ''geometry''],
      rows = [[IntV 2018, IntV 1, IntV 1, GeomV {1}], [IntV 2018, IntV 1, IntV 2, GeomV {2}]]\<rparr>"
  "aligned_side E 2018 mun_turnout = mun_turnout"
  "aligned_side E 2018 mun_turnout_twice = mun_turnout_twice"
proof -
  have "aligned_side E 2018 mun_geom = rows_equal mun_geom ''Year'' 2018"
    by (rule aligned_side_integer_keys)
       (simp_all add: mun_geom_def rectangular_def cell_of_def)
  then show "aligned_side E 2018 mun_geom =
     \<lparr>columns = [''Year'', ''Ward'', ''Sub'', ''geometry''],
      rows = [[IntV 2018, IntV 1, IntV 1, GeomV {1}], [IntV 2018, IntV 1, IntV 2, GeomV {2}]]\<rparr>"
    by (simp add: mun_geom_def rows_equal_def filter_rows_def cell_of_def eq_int_def)
  have "aligned_side E 2018 mun_turnout = rows_equal mun_turnout ''Year'' 2018"
    by (rule aligned_side_integer_keys)
       (simp_all add: mun_turnout_def rectangular_def cell_of_def)
  then show "aligned_side E 2018 mun_turnout = mun_turnout"
    by (simp add: mun_turnout_def rows_equal_def filter_rows_def cell_of_def eq_int_def)
  have "aligned_side E 2018 mun_turnout_twice = rows_equal mun_turnout_twice ''Year'' 2018"
    by (rule aligned_side_integer_keys)
       (simp_all add: mun_turnout_twice_def rectangular_def cell_of_def)
  then show "aligned_side E 2018 mun_turnout_twice = mun_turnout_twice"
    by (simp add: mun_turnout_twice_def rows_equal_def filter_rows_def cell_of_def eq_int_def)
qed

text \<open>
  The theorem at the municipal frames for 2018: with the turnout record given twice the
  call raises; with it given once the call returns the two subdivisions of 2018, the
  first with its turnout and the second with a missing value.
\<close>

theorem municipal_join_one_to_one_witness:
  "prepare_municipal_year_gdf calm_env 2018 mun_geom mun_turnout_twice = Inl MergeError \<and>
   prepare_municipal_year_gdf calm_env 2018 mun_geom mun_turnout =
     Inr \<lparr>columns = [''Year'', ''Ward'', ''Sub'', ''geometry'', ''PctVoted''],
          rows = [[IntV 2018, IntV 1, IntV 1, GeomV {1}, NumV (415 / 10)],
                  [IntV 2018, IntV 1, IntV 2, GeomV {2}, Null NaN]]\<rparr> \<and>
   length (rows (aligned_side calm_env 2018 mun_geom)) = 2"
proof -
  have k: "\<forall>c \<in> set municipal_keys. c \<in> set (columns mun_geom) \<and> c \<in> set (columns mun_turnout_twice)"
    "\<forall>c \<in> set municipal_keys. c \<in> set (columns mun_geom) \<and> c \<in> set (columns mun_turnout)"
    "''PctVoted'' \<in> set (columns mun_turnout_twice)" "''PctVoted'' \<in> set (columns mun_turnout)"
    by (simp_all add: municipal_keys_def mun_geom_def mun_turnout_def mun_turnout_twice_def)
  have dup: "\<not> distinct (map (key_of municipal_keys (columns (aligned_side calm_env 2018 mun_turnout_twice)))
                 (rows (aligned_side calm_env 2018 mun_turnout_twice)))"
    unfolding mun_sides
    by (simp add: mun_turnout_twice_def municipal_keys_def key_of_def cell_of_def key_canon_def)
  have 1: "prepare_municipal_year_gdf calm_env 2018 mun_geom mun_turnout_twice = Inl MergeError"
    using municipal_join_one_to_one[OF k(1) k(3) refl refl, of calm_env 2018] dup by blast
  have 2: "prepare_municipal_year_gdf calm_env 2018 mun_geom mun_turnout =
     Inr \<lparr>columns = [''Year'', ''Ward'', ''Sub'', ''geometry'', ''PctVoted''],
          rows = [[IntV 2018, IntV 1, IntV 1, GeomV {1}, NumV (415 / 10)],
                  [IntV 2018, IntV 1, IntV 2, GeomV {2}, Null NaN]]\<rparr>"
    unfolding prepare_municipal_year_gdf_def Let_def mun_sides
    by (simp add: mun_geom_def mun_turnout_def municipal_keys_def select_cols_def cell_of_def
        merge_one_to_one_def merge_left_def merged_columns_def joined_rows_def matches_of_def
        key_of_def key_canon_def right_part_def)
  from municipal_join_one_to_one[OF k(2) k(4) refl refl, of calm_env 2018] 2
  have "length (rows (aligned_side calm_env 2018 mun_geom)) = 2" by simp
  with 1 2 show ?thesis by blast
qed

end
